theory Spec2Isabelle
  imports Main "HOL-Library.Signed_Division"
begin

section \<open>Integer and text helpers (details/fmt\_helper.h)\<close>

text \<open>
  A \<open>fmt::basic_memory_buffer<char>\<close> is a list of characters. A helper that appends to
  its \<open>dest\<close> argument takes the buffer and returns the extended one. C++ \<open>int\<close> values
  are mathematical integers here; \<open>/\<close> and \<open>%\<close> of C++ truncate towards zero and are
  written \<open>sdiv\<close> and \<open>smod\<close>; conversions between integer types are written out
  (\<open>static_cast_int\<close>, \<open>static_cast_unsigned\<close>). The character \<open>'0'\<close> has code 48.
\<close>

type_synonym memory_buffer = string

definition static_cast_int :: "int \<Rightarrow> int" where
  "static_cast_int v = signed_take_bit 31 v"

definition static_cast_unsigned :: "int \<Rightarrow> int" where
  "static_cast_unsigned v = v mod 2 ^ 32"

definition push_back :: "char \<Rightarrow> memory_buffer \<Rightarrow> memory_buffer" where
  "push_back c dest = dest @ [c]"

text \<open>
  Modelled from the spec: \<open>fmt::format_int\<close> of the bundled fmt library, which is not
  among the sources; the spec's \<open>appendInt\<close> appends the decimal text of any signed or
  unsigned integer. \<open>dec_digits\<close> is the decimal text of a natural number, most
  significant digit first.
\<close>

fun dec_digits :: "nat \<Rightarrow> string" where
  "dec_digits n =
     (if n < 10 then [char_of (48 + n)]
      else dec_digits (n div 10) @ [char_of (48 + n mod 10)])"

declare dec_digits.simps [simp del]

definition format_int :: "int \<Rightarrow> string" where
  "format_int n = (if n < 0 then CHR ''-'' # dec_digits (nat (- n)) else dec_digits (nat n))"

text \<open>
  Modelled from the spec: \<open>fmt::format_to(dest, "{:0w}", n)\<close> of the bundled fmt library,
  the spec's generic width-\<open>w\<close> zero-padded signed format: the sign first, then zeros up
  to the width, then the digits; nothing is cut when the text is wider.
\<close>

definition format_to_zero :: "nat \<Rightarrow> int \<Rightarrow> memory_buffer \<Rightarrow> memory_buffer" where
  "format_to_zero w n dest =
     dest @
     (if n < 0
      then CHR ''-'' # replicate (w - 1 - length (dec_digits (nat (- n)))) CHR ''0''
             @ dec_digits (nat (- n))
      else replicate (w - length (dec_digits (nat n))) CHR ''0'' @ dec_digits (nat n))"

definition append_int :: "int \<Rightarrow> memory_buffer \<Rightarrow> memory_buffer" where
  "append_int n dest = dest @ format_int n"

definition pad2 :: "int \<Rightarrow> memory_buffer \<Rightarrow> memory_buffer" where
  "pad2 n dest =
     (if n > 99 then append_int n dest
      else if n > 9
      then push_back (char_of (48 + n smod 10)) (push_back (char_of (48 + n sdiv 10)) dest)
      else if n \<ge> 0
      then push_back (char_of (48 + n)) (push_back CHR ''0'' dest)
      else format_to_zero 2 n dest)"

definition pad3 :: "int \<Rightarrow> memory_buffer \<Rightarrow> memory_buffer" where
  "pad3 n dest =
     (if n > 999 then append_int n dest
      else if n > 99
      then pad2 (n smod 100) (push_back (char_of (48 + n sdiv 100)) dest)
      else if n > 9
      then push_back (char_of (48 + n smod 10))
             (push_back (char_of (48 + n sdiv 10)) (push_back CHR ''0'' dest))
      else if n \<ge> 0
      then push_back (char_of (48 + n)) (push_back CHR ''0'' (push_back CHR ''0'' dest))
      else format_to_zero 3 n dest)"

text \<open>\<open>pad6\<close> takes a \<open>size_t\<close>, a natural number.\<close>

definition pad6 :: "nat \<Rightarrow> memory_buffer \<Rightarrow> memory_buffer" where
  "pad6 n dest =
     (if n > 99999 then append_int (int n) dest
      else pad3 (static_cast_int (int (n mod 1000)))
             (pad3 (static_cast_int (int (n div 1000))) dest))"

text \<open>
  A \<open>std::chrono\<close> duration is its tick count together with the number of ticks per second
  of its unit (1 for seconds, 1000 for milliseconds, ...). \<open>duration_cast\<close> rescales the
  count and truncates towards zero. A time point of \<open>log_clock\<close> is the tick count since
  the epoch; the clock's ticks per second are a parameter (the clock is declared outside
  these sources).
\<close>

definition duration_cast :: "int \<Rightarrow> int \<Rightarrow> int \<Rightarrow> int" where
  "duration_cast from_den to_den d = (d * to_den) sdiv from_den"

definition time_fraction :: "int \<Rightarrow> int \<Rightarrow> int \<Rightarrow> int" where
  "time_fraction clock_den to_den tp =
     (let duration = tp;
          secs = duration_cast clock_den 1 duration
      in duration_cast clock_den to_den duration - duration_cast 1 to_den secs)"


section \<open>Records, calendar breakdown and collaborators\<close>

text \<open>
  \<open>std::tm\<close> with its nine standard fields, all C \<open>int\<close>. A \<open>log_msg\<close> carries the logger
  name, the level (the enumeration's integer value), the time point (tick count of
  \<open>log_clock\<close> since the epoch, signed), the thread id, the raw message, the output
  buffer \<open>formatted\<close> and the message id.
\<close>

record tm =
  tm_sec :: int
  tm_min :: int
  tm_hour :: int
  tm_mday :: int
  tm_mon :: int
  tm_year :: int
  tm_wday :: int
  tm_yday :: int
  tm_isdst :: int

record log_msg =
  logger_name :: string
  level :: nat
  time :: int
  thread_id :: nat
  raw :: string
  formatted :: string
  msg_id :: nat

text \<open>
  The preprocessor symbols the header tests and the platform constants it depends on:
  whether \<open>_WIN32\<close>, \<open>SPDLOG_NO_DATETIME\<close>, \<open>SPDLOG_NO_NAME\<close> and
  \<open>SPDLOG_ENABLE_MESSAGE_COUNTER\<close> are defined, the ticks per second of \<open>log_clock\<close>, and
  \<open>ULONG_MAX\<close>.
\<close>

record build =
  WIN32 :: bool
  SPDLOG_NO_DATETIME :: bool
  SPDLOG_NO_NAME :: bool
  SPDLOG_ENABLE_MESSAGE_COUNTER :: bool
  log_clock_den :: int
  ULONG_MAX :: nat

text \<open>
  The collaborators declared in \<open>details/os.h\<close> and \<open>common.h\<close>, which are outside these
  sources, are parameters: the process id, the line terminator, the UTC offset in
  minutes of a calendar breakdown, the local and UTC breakdown of a \<open>time_t\<close>, the level
  string tables, and the contents of the uninitialised \<open>std::tm\<close> that
  \<open>pattern_formatter::format\<close> passes on under \<open>SPDLOG_NO_DATETIME\<close>.
\<close>

record os =
  pid :: nat
  eol :: string
  utc_minutes_offset :: "tm \<Rightarrow> int"
  localtime :: "int \<Rightarrow> tm"
  gmtime :: "int \<Rightarrow> tm"
  to_str :: "nat \<Rightarrow> string"
  to_short_str :: "nat \<Rightarrow> string"
  uninitialized_tm :: tm


section \<open>The writer of the bundled fmt library\<close>

text \<open>
  Modelled from the spec: \<open>fmt::pad(value, width, '0')\<close> written to a \<open>fmt::MemoryWriter\<close>
  (bundled fmt library, not among the sources): the spec's zero-padded numeric fields,
  at least \<open>width\<close> characters, never truncated; for a negative value the same generic
  zero-padded signed format as above.
\<close>

definition fmt_pad :: "int \<Rightarrow> nat \<Rightarrow> string" where
  "fmt_pad v w = format_to_zero w v []"

text \<open>
  Modelled from the spec: \<open>fmt::format("{: <w}", val)\<close> (bundled fmt library): the decimal
  text of \<open>val\<close>, space-padded on the right up to width \<open>w\<close>, never truncated.
\<close>

definition format_left_aligned :: "nat \<Rightarrow> nat \<Rightarrow> string" where
  "format_left_aligned w val =
     format_int (int val) @ replicate (w - length (format_int (int val))) CHR '' ''"

text \<open>\<open>msg.formatted << s\<close>: the text is appended to the record's output buffer.\<close>

definition put :: "string \<Rightarrow> log_msg \<Rightarrow> log_msg" where
  "put s msg = msg\<lparr>formatted := formatted msg @ s\<rparr>"


section \<open>Directives (details/pattern\_formatter\_impl.h)\<close>

text \<open>The three padding members of \<open>flag_formatter\<close>; \<open>len\<close> is the field \<open>_length\<close>.\<close>

definition pad_space_left :: "nat \<Rightarrow> string \<Rightarrow> string \<Rightarrow> string" where
  "pad_space_left len w str =
     (let w1 = (if size str < len then w @ replicate (len - size str) CHR '' '' else w)
      in w1 @ str)"

definition pad_space_right :: "nat \<Rightarrow> string \<Rightarrow> string \<Rightarrow> string" where
  "pad_space_right len w str =
     (let w1 = w @ str
      in if size str < len then w1 @ replicate (len - size str) CHR '' '' else w1)"

definition pad_space_right_val :: "nat \<Rightarrow> string \<Rightarrow> nat \<Rightarrow> string" where
  "pad_space_right_val len w val = w @ format_left_aligned len val"

definition ampm :: "tm \<Rightarrow> string" where
  "ampm t = (if tm_hour t \<ge> 12 then ''PM'' else ''AM'')"

definition to12h :: "tm \<Rightarrow> int" where
  "to12h t = (if tm_hour t > 12 then tm_hour t - 12 else tm_hour t)"

text \<open>
  \<open>std::array::operator[]\<close> does not check its index; outside the table the source has
  undefined behaviour and the model leaves the value unspecified.
\<close>

definition array_at :: "'a list \<Rightarrow> int \<Rightarrow> 'a" where
  "array_at arr i = (if 0 \<le> i \<and> i < int (length arr) then arr ! nat i else undefined)"

definition days :: "string list" where
  "days = [''Sun'', ''Mon'', ''Tue'', ''Wed'', ''Thu'', ''Fri'', ''Sat'']"

definition full_days :: "string list" where
  "full_days = [''Sunday'', ''Monday'', ''Tuesday'', ''Wednesday'', ''Thursday'', ''Friday'',
     ''Saturday'']"

definition months :: "string list" where
  "months = [''Jan'', ''Feb'', ''Mar'', ''Apr'', ''May'', ''June'', ''July'', ''Aug'', ''Sept'',
     ''Oct'', ''Nov'', ''Dec'']"

definition full_months :: "string list" where
  "full_months = [''January'', ''February'', ''March'', ''April'', ''May'', ''June'', ''July'',
     ''August'', ''September'', ''October'', ''November'', ''December'']"

definition pad_n_join2 :: "string \<Rightarrow> int \<Rightarrow> int \<Rightarrow> char \<Rightarrow> string" where
  "pad_n_join2 w v1 v2 sep = w @ fmt_pad v1 2 @ [sep] @ fmt_pad v2 2"

definition pad_n_join3 :: "string \<Rightarrow> int \<Rightarrow> int \<Rightarrow> int \<Rightarrow> char \<Rightarrow> string" where
  "pad_n_join3 w v1 v2 v3 sep = w @ fmt_pad v1 2 @ [sep] @ fmt_pad v2 2 @ [sep] @ fmt_pad v3 2"

text \<open>
  The state of a \<open>z_formatter\<close>: \<open>_last_update\<close> (a time point) and \<open>_offset_minutes\<close>. The
  mutex is not modelled: calls are sequential here. \<open>cache_refresh\<close> is in seconds.
\<close>

record z_cache =
  last_update :: int
  offset_minutes :: int

definition cache_refresh :: int where
  "cache_refresh = 5"

definition get_cached_offset :: "build \<Rightarrow> os \<Rightarrow> z_cache \<Rightarrow> log_msg \<Rightarrow> tm \<Rightarrow> int \<times> z_cache" where
  "get_cached_offset b os z msg tm_time =
     (if time msg - last_update z \<ge> cache_refresh * log_clock_den b
      then (utc_minutes_offset os tm_time,
            \<lparr>last_update = time msg, offset_minutes = utc_minutes_offset os tm_time\<rparr>)
      else (offset_minutes z, z))"

text \<open>
  One constructor per formatter class; the argument is the state the object holds
  (\<open>_length\<close>, the cache, the character or the string).
\<close>

datatype flag_formatter =
    name_formatter nat
  | level_formatter nat
  | short_level_formatter nat
  | a_formatter nat
  | i_formatter
  | A_formatter nat
  | b_formatter nat
  | B_formatter nat
  | c_formatter
  | C_formatter
  | D_formatter
  | Y_formatter
  | m_formatter
  | d_formatter
  | H_formatter
  | I_formatter
  | M_formatter
  | S_formatter
  | e_formatter
  | f_formatter
  | F_formatter
  | p_formatter
  | r_formatter
  | R_formatter
  | T_formatter
  | z_formatter z_cache
  | t_formatter nat
  | pid_formatter nat
  | v_formatter
  | ch_formatter char
  | aggregate_formatter string
  | full_formatter

text \<open>The constructor \<open>z_formatter()\<close>.\<close>

definition z_formatter_new :: flag_formatter where
  "z_formatter_new = z_formatter \<lparr>last_update = 0, offset_minutes = 0\<rparr>"

definition z_format :: "build \<Rightarrow> os \<Rightarrow> z_cache \<Rightarrow> log_msg \<Rightarrow> tm \<Rightarrow> z_cache \<times> log_msg" where
  "z_format b os z msg tm_time =
     (let (total_minutes0, z1) =
            (if WIN32 b then get_cached_offset b os z msg tm_time
             else (utc_minutes_offset os tm_time, z));
          is_negative = total_minutes0 < 0;
          (total_minutes, sign) =
            (if is_negative then (- total_minutes0, CHR ''-'') else (total_minutes0, CHR ''+''));
          h = total_minutes sdiv 60;
          m = total_minutes smod 60;
          msg1 = put [sign] msg
      in (z1, msg1\<lparr>formatted := pad_n_join2 (formatted msg1) h m CHR '':''\<rparr>))"

definition full_format :: "build \<Rightarrow> os \<Rightarrow> log_msg \<Rightarrow> tm \<Rightarrow> log_msg" where
  "full_format b os msg tm_time =
     (let msg1 =
            (if \<not> SPDLOG_NO_DATETIME b
             then (let duration = time msg;
                       millis = duration_cast (log_clock_den b) 1000 duration smod 1000
                   in put (''['' @ format_int (static_cast_unsigned (tm_year tm_time + 1900)) @ ''-''
                        @ fmt_pad (static_cast_unsigned (tm_mon tm_time + 1)) 2 @ ''-''
                        @ fmt_pad (static_cast_unsigned (tm_mday tm_time)) 2 @ '' ''
                        @ fmt_pad (static_cast_unsigned (tm_hour tm_time)) 2 @ '':''
                        @ fmt_pad (static_cast_unsigned (tm_min tm_time)) 2 @ '':''
                        @ fmt_pad (static_cast_unsigned (tm_sec tm_time)) 2 @ ''.''
                        @ fmt_pad (static_cast_unsigned millis) 3 @ ''] '') msg)
             else msg);
          msg2 = (if \<not> SPDLOG_NO_NAME b then put (''['' @ logger_name msg1 @ ''] '') msg1 else msg1);
          msg3 = put (''['' @ to_str os (level msg2) @ ''] '') msg2
      in put (raw msg3) msg3)"

text \<open>
  The virtual member \<open>format(msg, tm_time)\<close>: it appends to \<open>msg.formatted\<close>, and the
  \<open>z_formatter\<close> may update its cache, so the formatter and the record are both returned.
\<close>

fun format :: "build \<Rightarrow> os \<Rightarrow> flag_formatter \<Rightarrow> log_msg \<Rightarrow> tm \<Rightarrow> flag_formatter \<times> log_msg" where
  "format b os (name_formatter len) msg tm_time =
     (name_formatter len, msg\<lparr>formatted := pad_space_left len (formatted msg) (logger_name msg)\<rparr>)"
| "format b os (level_formatter len) msg tm_time =
     (level_formatter len,
      msg\<lparr>formatted := pad_space_left len (formatted msg) (to_str os (level msg))\<rparr>)"
| "format b os (short_level_formatter len) msg tm_time =
     (short_level_formatter len,
      msg\<lparr>formatted := pad_space_left len (formatted msg) (to_short_str os (level msg))\<rparr>)"
| "format b os (a_formatter len) msg tm_time =
     (a_formatter len,
      msg\<lparr>formatted := pad_space_right len (formatted msg) (array_at days (tm_wday tm_time))\<rparr>)"
| "format b os i_formatter msg tm_time =
     (i_formatter, put (CHR ''#'' # format_int (int (msg_id msg))) msg)"
| "format b os (A_formatter len) msg tm_time =
     (A_formatter len,
      msg\<lparr>formatted := pad_space_right len (formatted msg) (array_at full_days (tm_wday tm_time))\<rparr>)"
| "format b os (b_formatter len) msg tm_time =
     (b_formatter len,
      msg\<lparr>formatted := pad_space_right len (formatted msg) (array_at months (tm_mon tm_time))\<rparr>)"
| "format b os (B_formatter len) msg tm_time =
     (B_formatter len,
      msg\<lparr>formatted := pad_space_right len (formatted msg) (array_at full_months (tm_mon tm_time))\<rparr>)"
| "format b os c_formatter msg tm_time =
     (let msg1 = put (array_at days (tm_wday tm_time) @ '' '' @ array_at months (tm_mon tm_time)
                   @ '' '' @ format_int (tm_mday tm_time) @ '' '') msg;
          w = pad_n_join3 (formatted msg1) (tm_hour tm_time) (tm_min tm_time) (tm_sec tm_time)
                CHR '':''
      in (c_formatter, msg1\<lparr>formatted := w @ '' '' @ format_int (tm_year tm_time + 1900)\<rparr>))"
| "format b os C_formatter msg tm_time =
     (C_formatter, put (fmt_pad (tm_year tm_time smod 100) 2) msg)"
| "format b os D_formatter msg tm_time =
     (D_formatter,
      msg\<lparr>formatted := pad_n_join3 (formatted msg) (tm_mon tm_time + 1) (tm_mday tm_time)
                         (tm_year tm_time smod 100) CHR ''/''\<rparr>)"
| "format b os Y_formatter msg tm_time =
     (Y_formatter, put (format_int (tm_year tm_time + 1900)) msg)"
| "format b os m_formatter msg tm_time =
     (m_formatter, put (fmt_pad (tm_mon tm_time + 1) 2) msg)"
| "format b os d_formatter msg tm_time =
     (d_formatter, put (fmt_pad (tm_mday tm_time) 2) msg)"
| "format b os H_formatter msg tm_time =
     (H_formatter, put (fmt_pad (tm_hour tm_time) 2) msg)"
| "format b os I_formatter msg tm_time =
     (I_formatter, put (fmt_pad (to12h tm_time) 2) msg)"
| "format b os M_formatter msg tm_time =
     (M_formatter, put (fmt_pad (tm_min tm_time) 2) msg)"
| "format b os S_formatter msg tm_time =
     (S_formatter, put (fmt_pad (tm_sec tm_time) 2) msg)"
| "format b os e_formatter msg tm_time =
     (let duration = time msg;
          millis = duration_cast (log_clock_den b) 1000 duration smod 1000
      in (e_formatter, put (fmt_pad (static_cast_int millis) 3) msg))"
| "format b os f_formatter msg tm_time =
     (let duration = time msg;
          micros = duration_cast (log_clock_den b) 1000000 duration smod 1000000
      in (f_formatter, put (fmt_pad (static_cast_int micros) 6) msg))"
| "format b os F_formatter msg tm_time =
     (let duration = time msg;
          ns = duration_cast (log_clock_den b) 1000000000 duration smod 1000000000
      in (F_formatter, put (fmt_pad (static_cast_int ns) 9) msg))"
| "format b os p_formatter msg tm_time =
     (p_formatter, put (ampm tm_time) msg)"
| "format b os r_formatter msg tm_time =
     (let w = pad_n_join3 (formatted msg) (to12h tm_time) (tm_min tm_time) (tm_sec tm_time)
                CHR '':''
      in (r_formatter, msg\<lparr>formatted := w @ '' '' @ ampm tm_time\<rparr>))"
| "format b os R_formatter msg tm_time =
     (R_formatter,
      msg\<lparr>formatted := pad_n_join2 (formatted msg) (tm_hour tm_time) (tm_min tm_time) CHR '':''\<rparr>)"
| "format b os T_formatter msg tm_time =
     (T_formatter,
      msg\<lparr>formatted := pad_n_join3 (formatted msg) (tm_hour tm_time) (tm_min tm_time)
                         (tm_sec tm_time) CHR '':''\<rparr>)"
| "format b os (z_formatter z) msg tm_time =
     (let (z1, msg1) = z_format b os z msg tm_time in (z_formatter z1, msg1))"
| "format b os (t_formatter len) msg tm_time =
     (t_formatter len,
      msg\<lparr>formatted := pad_space_right_val len (formatted msg) (thread_id msg)\<rparr>)"
| "format b os (pid_formatter len) msg tm_time =
     (pid_formatter len,
      msg\<lparr>formatted := pad_space_right_val len (formatted msg) (pid os)\<rparr>)"
| "format b os v_formatter msg tm_time =
     (v_formatter, put (raw msg) msg)"
| "format b os (ch_formatter ch) msg tm_time =
     (ch_formatter ch, put [ch] msg)"
| "format b os (aggregate_formatter str) msg tm_time =
     (aggregate_formatter str, put str msg)"
| "format b os full_formatter msg tm_time =
     (full_formatter, full_format b os msg tm_time)"


section \<open>The pattern compiler\<close>

text \<open>
  \<open>strtoul(length_chars.c_str(), nullptr, 10)\<close> of the C library, on the decimal digits
  that \<open>handle_flag\<close> collects: the value of the digit string, \<open>ULONG_MAX\<close> when it does
  not fit.
\<close>

definition is_digit :: "char \<Rightarrow> bool" where
  "is_digit c = ((48::nat) \<le> of_char c \<and> of_char c \<le> (57::nat))"

definition strtoul :: "build \<Rightarrow> string \<Rightarrow> nat" where
  "strtoul b s = min (foldl (\<lambda>acc c. acc * 10 + (of_char c - 48)) 0 s) (ULONG_MAX b)"

text \<open>
  \<open>handle_flag(flag, length_chars)\<close> returns its result, the updated \<open>length_chars\<close> and the
  updated member \<open>_formatters\<close>. Every case of the switch pushes one formatter, after
  which \<open>length_chars\<close> is cleared and \<open>true\<close> returned.
\<close>

definition handle_flag ::
    "build \<Rightarrow> char \<Rightarrow> string \<Rightarrow> flag_formatter list \<Rightarrow> bool \<times> string \<times> flag_formatter list" where
  "handle_flag b flag length_chars fs =
     (if is_digit flag then (False, length_chars @ [flag], fs)
      else
        let len = (if length_chars \<noteq> [] then strtoul b length_chars else 0);
            f = (if flag = CHR ''n'' then name_formatter len
                 else if flag = CHR ''l'' then level_formatter len
                 else if flag = CHR ''L'' then short_level_formatter len
                 else if flag = CHR ''t'' then t_formatter len
                 else if flag = CHR ''v'' then v_formatter
                 else if flag = CHR ''a'' then a_formatter len
                 else if flag = CHR ''A'' then A_formatter len
                 else if flag = CHR ''b'' \<or> flag = CHR ''h'' then b_formatter len
                 else if flag = CHR ''B'' then B_formatter len
                 else if flag = CHR ''c'' then c_formatter
                 else if flag = CHR ''C'' then C_formatter
                 else if flag = CHR ''Y'' then Y_formatter
                 else if flag = CHR ''D'' \<or> flag = CHR ''x'' then D_formatter
                 else if flag = CHR ''m'' then m_formatter
                 else if flag = CHR ''d'' then d_formatter
                 else if flag = CHR ''H'' then H_formatter
                 else if flag = CHR ''I'' then I_formatter
                 else if flag = CHR ''M'' then M_formatter
                 else if flag = CHR ''S'' then S_formatter
                 else if flag = CHR ''e'' then e_formatter
                 else if flag = CHR ''f'' then f_formatter
                 else if flag = CHR ''F'' then F_formatter
                 else if flag = CHR ''p'' then p_formatter
                 else if flag = CHR ''r'' then r_formatter
                 else if flag = CHR ''R'' then R_formatter
                 else if flag = CHR ''T'' \<or> flag = CHR ''X'' then T_formatter
                 else if flag = CHR ''z'' then z_formatter_new
                 else if flag = CHR ''+'' then full_formatter
                 else if flag = CHR ''P'' then pid_formatter len
                 else if SPDLOG_ENABLE_MESSAGE_COUNTER b \<and> flag = CHR ''i'' then i_formatter
                 else aggregate_formatter (CHR ''%'' # length_chars @ [flag]))
        in (True, [], fs @ [f]))"

text \<open>
  \<open>compile_pattern\<close>: \<open>compile_loop\<close> is the \<open>for\<close> loop over the pattern and \<open>flag_loop\<close>
  the inner \<open>while\<close> loop after a \<open>%\<close>; both take the rest of the pattern, the pending
  \<open>user_chars\<close> (\<open>None\<close> for the null pointer), \<open>length_chars\<close> and \<open>_formatters\<close>, and
  return them as they are when the scan stops. Moving \<open>user_chars\<close> into the chain leaves
  the null pointer behind.
\<close>

definition push_user_chars :: "string option \<Rightarrow> flag_formatter list \<Rightarrow> flag_formatter list" where
  "push_user_chars user_chars fs =
     (case user_chars of Some str \<Rightarrow> fs @ [aggregate_formatter str] | None \<Rightarrow> fs)"

definition add_ch :: "char \<Rightarrow> string option \<Rightarrow> string option" where
  "add_ch ch user_chars = (case user_chars of None \<Rightarrow> Some [ch] | Some str \<Rightarrow> Some (str @ [ch]))"

fun compile_loop ::
    "build \<Rightarrow> string \<Rightarrow> string option \<Rightarrow> string \<Rightarrow> flag_formatter list
       \<Rightarrow> string option \<times> string \<times> flag_formatter list"
  and flag_loop ::
    "build \<Rightarrow> string \<Rightarrow> string option \<Rightarrow> string \<Rightarrow> flag_formatter list
       \<Rightarrow> string option \<times> string \<times> flag_formatter list" where
  "compile_loop b [] user_chars length_chars fs = (user_chars, length_chars, fs)"
| "compile_loop b (c # rest) user_chars length_chars fs =
     (if c = CHR ''%''
      then flag_loop b rest None length_chars (push_user_chars user_chars fs)
      else compile_loop b rest (add_ch c user_chars) length_chars fs)"
| "flag_loop b [] user_chars length_chars fs = (user_chars, length_chars, fs)"
| "flag_loop b (c # rest) user_chars length_chars fs =
     (case handle_flag b c length_chars fs of
        (True, length_chars1, fs1) \<Rightarrow> compile_loop b rest user_chars length_chars1 fs1
      | (False, length_chars1, fs1) \<Rightarrow> flag_loop b rest user_chars length_chars1 fs1)"

datatype pattern_time_type = local | utc

record pattern_formatter =
  pattern_time :: pattern_time_type
  formatters :: "flag_formatter list"

definition compile_pattern :: "build \<Rightarrow> string \<Rightarrow> pattern_formatter \<Rightarrow> pattern_formatter" where
  "compile_pattern b pattern pf =
     (case compile_loop b pattern None [] (formatters pf) of
        (user_chars, length_chars, fs) \<Rightarrow> pf\<lparr>formatters := push_user_chars user_chars fs\<rparr>)"

text \<open>The constructor \<open>pattern_formatter(pattern, pattern_time)\<close>.\<close>

definition pattern_formatter_new :: "build \<Rightarrow> string \<Rightarrow> pattern_time_type \<Rightarrow> pattern_formatter" where
  "pattern_formatter_new b pattern pt =
     compile_pattern b pattern \<lparr>pattern_time = pt, formatters = []\<rparr>"

definition to_time_t :: "build \<Rightarrow> int \<Rightarrow> int" where
  "to_time_t b tp = duration_cast (log_clock_den b) 1 tp"

definition get_time :: "build \<Rightarrow> os \<Rightarrow> pattern_formatter \<Rightarrow> log_msg \<Rightarrow> tm" where
  "get_time b os pf msg =
     (if pattern_time pf = local then localtime os (to_time_t b (time msg))
      else gmtime os (to_time_t b (time msg)))"

text \<open>The loop \<open>for (auto &f : _formatters) f->format(msg, tm_time)\<close>.\<close>

fun format_all ::
    "build \<Rightarrow> os \<Rightarrow> flag_formatter list \<Rightarrow> log_msg \<Rightarrow> tm \<Rightarrow> flag_formatter list \<times> log_msg" where
  "format_all b os [] msg tm_time = ([], msg)"
| "format_all b os (f # fs) msg tm_time =
     (let (f1, msg1) = format b os f msg tm_time;
          (fs1, msg2) = format_all b os fs msg1 tm_time
      in (f1 # fs1, msg2))"

text \<open>\<open>pattern_formatter::format(msg)\<close>.\<close>

definition pattern_format ::
    "build \<Rightarrow> os \<Rightarrow> pattern_formatter \<Rightarrow> log_msg \<Rightarrow> pattern_formatter \<times> log_msg" where
  "pattern_format b os pf msg =
     (let tm_time = (if \<not> SPDLOG_NO_DATETIME b then get_time b os pf msg else uninitialized_tm os);
          (fs1, msg1) = format_all b os (formatters pf) msg tm_time
      in (pf\<lparr>formatters := fs1\<rparr>, put (eol os) msg1))"


section \<open>The layouts the specification names\<close>

text \<open>
  The UTC offset as the specification words it: the sign, then the zero-padded hours and
  minutes of the absolute value, separated by a colon.
\<close>

definition offset_text_spec :: "int \<Rightarrow> string" where
  "offset_text_spec total_minutes =
     (if total_minutes < 0 then ''-'' else ''+'') @ fmt_pad (\<bar>total_minutes\<bar> sdiv 60) 2 @ '':''
       @ fmt_pad (\<bar>total_minutes\<bar> smod 60) 2"


text \<open>
  The canonical full line as the specification words it, built from the helpers of
  \<open>fmt_helper.h\<close>: the bracketed date and time with \<open>pad2\<close> fields and \<open>pad3\<close>
  milliseconds, the bracketed name and level string, and the raw message. The
  milliseconds are the sub-second remainder of the timestamp.
\<close>

definition full_line_spec :: "build \<Rightarrow> os \<Rightarrow> log_msg \<Rightarrow> tm \<Rightarrow> string" where
  "full_line_spec b os msg t =
     ''['' @ format_int (tm_year t + 1900) @ ''-'' @ pad2 (tm_mon t + 1) [] @ ''-''
       @ pad2 (tm_mday t) [] @ '' '' @ pad2 (tm_hour t) [] @ '':'' @ pad2 (tm_min t) [] @ '':''
       @ pad2 (tm_sec t) [] @ ''.'' @ pad3 (time_fraction (log_clock_den b) 1000 (time msg)) []
       @ ''] ['' @ logger_name msg @ ''] ['' @ to_str os (level msg) @ ''] '' @ raw msg"

definition default_pattern :: string where
  "default_pattern = ''[%Y-%m-%d %H:%M:%S.%e] [%n] [%l] %v''"

text \<open>
  A calendar breakdown whose year, month, day, hour, minute and second, as the
  directives print them, are not negative (and fit a C \<open>int\<close>).
\<close>

definition calendar_fields_nonneg :: "tm \<Rightarrow> bool" where
  "calendar_fields_nonneg t =
     list_all (\<lambda>v. 0 \<le> v \<and> v < 2 ^ 31)
       [tm_year t + 1900, tm_mon t + 1, tm_mday t, tm_hour t, tm_min t, tm_sec t]"


text \<open>
  The directive catalog: the selector characters that have a case of their own in the
  switch of \<open>handle_flag\<close>; \<open>i\<close> only where the message counter is compiled in.
\<close>

definition catalog :: "build \<Rightarrow> char list" where
  "catalog b =
     ''nlLtvaAbhBcCYDxmdHIMSefFprRTXz+P'' @ (if SPDLOG_ENABLE_MESSAGE_COUNTER b then ''i'' else [])"

text \<open>
  Whether the scan of a pattern stops inside a directive, that is after a \<open>%\<close> that opened
  a directive and was followed by width digits only. The first argument says whether the
  scan starts inside one.
\<close>

fun open_directive :: "bool \<Rightarrow> string \<Rightarrow> bool" where
  "open_directive inside [] = inside"
| "open_directive inside (c # rest) =
     open_directive (if inside then is_digit c else c = CHR ''%'') rest"


text \<open>
  Access to the constructor that \<open>handle_flag\<close> calls with \<open>new\<close>. Members of a \<open>class\<close>
  are private until an access specifier appears: \<open>pid_formatter\<close> declares its constructor
  before any \<open>public:\<close>, while every other formatter class declares its constructor after
  \<open>public:\<close> or has only the implicit one, which is public.
\<close>

datatype access_specifier = Public | Private

fun constructor_access :: "flag_formatter \<Rightarrow> access_specifier" where
  "constructor_access (pid_formatter len) = Private"
| "constructor_access f = Public"


section \<open>Concrete records for the examples\<close>

text \<open>
  A Windows build and a build for another platform, both with a clock of 1000 ticks per
  second; collaborators whose UTC offset is one hour, two hours under daylight saving
  time; and the calendar breakdown of the epoch, without and with daylight saving time.
\<close>

definition win_build :: build where
  "win_build = \<lparr>WIN32 = True, SPDLOG_NO_DATETIME = False, SPDLOG_NO_NAME = False,
     SPDLOG_ENABLE_MESSAGE_COUNTER = False, log_clock_den = 1000,
     ULONG_MAX = 4294967295\<rparr>"

definition posix_build :: build where
  "posix_build = \<lparr>WIN32 = False, SPDLOG_NO_DATETIME = False, SPDLOG_NO_NAME = False,
     SPDLOG_ENABLE_MESSAGE_COUNTER = False, log_clock_den = 1000,
     ULONG_MAX = 18446744073709551615\<rparr>"

definition epoch_tm :: tm where
  "epoch_tm = \<lparr>tm_sec = 0, tm_min = 0, tm_hour = 0, tm_mday = 1, tm_mon = 0, tm_year = 70,
     tm_wday = 4, tm_yday = 0, tm_isdst = 0\<rparr>"

definition epoch_dst_tm :: tm where
  "epoch_dst_tm = epoch_tm\<lparr>tm_isdst := 1\<rparr>"

definition example_os :: os where
  "example_os = \<lparr>pid = 4242, eol = [CHR 0x0A],
     utc_minutes_offset = (\<lambda>t. 60 + 60 * tm_isdst t),
     localtime = (\<lambda>t. epoch_tm), gmtime = (\<lambda>t. epoch_tm),
     to_str = (\<lambda>l. array_at [''trace'', ''debug'', ''info'', ''warning'', ''error'',
       ''critical'', ''off''] (int l)),
     to_short_str = (\<lambda>l. array_at [''T'', ''D'', ''I'', ''W'', ''E'', ''C'', ''O''] (int l)),
     uninitialized_tm = epoch_tm\<rparr>"

definition example_msg :: "int \<Rightarrow> log_msg" where
  "example_msg tp = \<lparr>logger_name = ''worker'', level = 2, time = tp, thread_id = 7,
     raw = ''hello'', formatted = [], msg_id = 1\<rparr>"


section \<open>Properties of the padding helpers\<close>

lemma sdiv_nonneg: "0 \<le> a \<Longrightarrow> 0 \<le> b \<Longrightarrow> (a::int) sdiv b = a div b"
  by (cases "a = 0"; cases "b = 0") (simp_all add: signed_divide_int_def)

lemma smod_nonneg: "0 \<le> a \<Longrightarrow> 0 \<le> b \<Longrightarrow> (a::int) smod b = a mod b"
  by (cases "a = 0") (simp_all add: signed_modulo_int_def)

lemma static_cast_int_id: "0 \<le> v \<Longrightarrow> v < 2 ^ 31 \<Longrightarrow> static_cast_int v = v"
  unfolding static_cast_int_def
  by (simp add: signed_take_bit_int_eq_self)

lemma dec_digits_one: "n < 10 \<Longrightarrow> dec_digits n = [char_of (48 + n)]"
  by (simp add: dec_digits.simps)

lemma dec_digits_two:
  assumes "10 \<le> n" "n < 100"
  shows "dec_digits n = [char_of (48 + n div 10), char_of (48 + n mod 10)]"
proof -
  have "n div 10 < 10" using assms by simp
  then show ?thesis
    using assms by (subst dec_digits.simps) (simp add: dec_digits_one)
qed

lemma char_of_int_digit: "0 \<le> d \<Longrightarrow> char_of (48 + d :: int) = char_of (48 + nat d)"
proof -
  assume "0 \<le> d"
  then have "48 + d = int (48 + nat d)" by simp
  then show ?thesis by (simp only: char_of_nat)
qed

lemma format_int_one: "0 \<le> n \<Longrightarrow> n \<le> 9 \<Longrightarrow> format_int n = [char_of (48 + n)]"
  by (simp add: format_int_def dec_digits_one char_of_int_digit)

lemma format_int_two:
  assumes "10 \<le> n" "n \<le> 99"
  shows "format_int n = [char_of (48 + n div 10), char_of (48 + n mod 10)]"
proof -
  have d: "dec_digits (nat n) = [char_of (48 + nat n div 10), char_of (48 + nat n mod 10)]"
    using assms by (intro dec_digits_two) simp_all
  have a: "nat n div 10 = nat (n div 10)" "nat n mod 10 = nat (n mod 10)"
    using assms by (simp_all add: nat_div_distrib nat_mod_distrib)
  have "0 \<le> n div 10" "0 \<le> n mod 10" using assms by simp_all
  then show ?thesis
    using assms d a by (simp add: format_int_def char_of_int_digit)
qed

text \<open>
  C7. \<open>pad2 n\<close> appends the full decimal text of \<open>n\<close> when \<open>n > 99\<close>; exactly the two
  digits of \<open>n\<close> (its decimal text) when \<open>10 \<le> n \<le> 99\<close>; \<open>0\<close> followed by the digit when
  \<open>0 \<le> n \<le> 9\<close>; and the generic width-2 zero-padded signed rendering when \<open>n < 0\<close>.
\<close>

theorem pad2_cases:
  "(99 < n \<longrightarrow> pad2 n dest = dest @ format_int n) \<and>
   (10 \<le> n \<and> n \<le> 99 \<longrightarrow>
      pad2 n dest = dest @ [char_of (48 + n div 10), char_of (48 + n mod 10)] \<and>
      pad2 n dest = dest @ format_int n \<and>
      length (pad2 n dest) = length dest + 2) \<and>
   (0 \<le> n \<and> n \<le> 9 \<longrightarrow>
      pad2 n dest = dest @ [CHR ''0'', char_of (48 + n)] \<and>
      pad2 n dest = dest @ CHR ''0'' # format_int n) \<and>
   (n < 0 \<longrightarrow> pad2 n dest = format_to_zero 2 n dest)"
proof (intro conjI impI)
  assume "99 < n"
  then show "pad2 n dest = dest @ format_int n"
    by (simp add: pad2_def append_int_def)
next
  assume h: "10 \<le> n \<and> n \<le> 99"
  then show two: "pad2 n dest = dest @ [char_of (48 + n div 10), char_of (48 + n mod 10)]"
    by (simp add: pad2_def push_back_def sdiv_nonneg smod_nonneg)
  from h show "pad2 n dest = dest @ format_int n"
    by (simp add: two format_int_two)
  show "length (pad2 n dest) = length dest + 2"
    by (simp add: two)
next
  assume h: "0 \<le> n \<and> n \<le> 9"
  then show one: "pad2 n dest = dest @ [CHR ''0'', char_of (48 + n)]"
    by (simp add: pad2_def push_back_def)
  from h show "pad2 n dest = dest @ CHR ''0'' # format_int n"
    by (simp add: one format_int_one)
next
  assume "n < 0"
  then show "pad2 n dest = format_to_zero 2 n dest"
    by (simp add: pad2_def)
qed

theorem pad2_cases_witness:
  "pad2 150 [] = ''150'' \<and> pad2 42 ''x'' = ''x42'' \<and> pad2 7 [] = ''07'' \<and> pad2 (- 5) [] = ''-5''"
proof -
  have a: "format_int 150 = ''150''" "format_int 42 = ''42''" "format_int 7 = ''7''"
    "format_to_zero 2 (- 5) [] = ''-5''"
    by code_simp+
  show ?thesis
    using pad2_cases [of 150 "[]"] pad2_cases [of 42 "''x''"] pad2_cases [of 7 "[]"]
      pad2_cases [of "- 5" "[]"]
    by (simp add: a char_of_def)
qed

lemma digit_chars_nat:
  "char_of (48::nat) = CHR ''0''" "char_of (49::nat) = CHR ''1''" "char_of (50::nat) = CHR ''2''"
  "char_of (51::nat) = CHR ''3''" "char_of (52::nat) = CHR ''4''" "char_of (53::nat) = CHR ''5''"
  "char_of (54::nat) = CHR ''6''" "char_of (55::nat) = CHR ''7''" "char_of (56::nat) = CHR ''8''"
  "char_of (57::nat) = CHR ''9''"
  by code_simp+

lemma digit_chars_int:
  "char_of (48::int) = CHR ''0''" "char_of (49::int) = CHR ''1''" "char_of (50::int) = CHR ''2''"
  "char_of (51::int) = CHR ''3''" "char_of (52::int) = CHR ''4''" "char_of (53::int) = CHR ''5''"
  "char_of (54::int) = CHR ''6''" "char_of (55::int) = CHR ''7''" "char_of (56::int) = CHR ''8''"
  "char_of (57::int) = CHR ''9''"
  by code_simp+

lemmas eval_text = digit_chars_nat digit_chars_int dec_digits.simps format_int_def
  format_to_zero_def fmt_pad_def append_int_def push_back_def pad2_def pad3_def
  signed_divide_int_def signed_modulo_int_def

lemma pad2_append: "pad2 n dest = dest @ pad2 n []"
  by (simp add: pad2_def append_int_def push_back_def format_to_zero_def)

lemma pad3_append: "pad3 n dest = dest @ pad3 n []"
  unfolding pad3_def append_int_def push_back_def format_to_zero_def
  by (simp add: pad2_append [of _ "dest @ _"] pad2_append [of _ "[_]"])

lemma pad3_values:
  "pad3 0 [] = ''000''" "pad3 9 [] = ''009''" "pad3 99 [] = ''099''"
  "pad3 999 [] = ''999''" "pad3 1000 [] = ''1000''"
  by (simp_all add: eval_text)

text \<open>
  C8. \<open>pad6 n\<close> appends the full decimal text of \<open>n\<close> when \<open>n > 99999\<close>, and otherwise
  exactly \<open>pad3 (n / 1000)\<close> followed by \<open>pad3 (n % 1000)\<close>; \<open>pad3\<close> renders 0, 9, 99, 999
  and 1000 as \<open>000\<close>, \<open>009\<close>, \<open>099\<close>, \<open>999\<close> and \<open>1000\<close>.
\<close>

theorem pad6_pad3:
  "(99999 < n \<longrightarrow> pad6 n dest = dest @ format_int (int n)) \<and>
   (n \<le> 99999 \<longrightarrow>
      pad6 n dest = pad3 (int (n mod 1000)) (pad3 (int (n div 1000)) dest) \<and>
      pad6 n dest = dest @ pad3 (int (n div 1000)) [] @ pad3 (int (n mod 1000)) []) \<and>
   pad3 0 [] = ''000'' \<and> pad3 9 [] = ''009'' \<and> pad3 99 [] = ''099'' \<and>
   pad3 999 [] = ''999'' \<and> pad3 1000 [] = ''1000''"
proof -
  have big: "pad6 n dest = dest @ format_int (int n)" if "99999 < n"
    using that by (simp add: pad6_def append_int_def)
  have a: "static_cast_int (int (n mod 1000)) = int (n mod 1000)"
    by (rule static_cast_int_id) simp_all
  have b: "static_cast_int (int (n div 1000)) = int (n div 1000)" if "n \<le> 99999"
  proof (rule static_cast_int_id)
    show "0 \<le> int (n div 1000)" by simp
    have "n div 1000 \<le> 99" using that by simp
    then show "int (n div 1000) < 2 ^ 31" by simp
  qed
  have c: "pad6 n dest = pad3 (int (n mod 1000)) (pad3 (int (n div 1000)) dest)"
    if "n \<le> 99999"
    using that by (simp add: pad6_def a b)
  have d: "pad6 n dest = dest @ pad3 (int (n div 1000)) [] @ pad3 (int (n mod 1000)) []"
    if "n \<le> 99999"
    using c [OF that] pad3_append [of "int (n mod 1000)" "pad3 (int (n div 1000)) dest"]
      pad3_append [of "int (n div 1000)" dest]
    by simp
  show ?thesis
  proof (intro conjI impI)
    assume "99999 < n" then show "pad6 n dest = dest @ format_int (int n)" by (rule big)
  next
    assume h: "n \<le> 99999"
    show "pad6 n dest = pad3 (int (n mod 1000)) (pad3 (int (n div 1000)) dest)"
      by (rule c [OF h])
    show "pad6 n dest = dest @ pad3 (int (n div 1000)) [] @ pad3 (int (n mod 1000)) []"
      by (rule d [OF h])
  qed (rule pad3_values)+
qed

theorem pad6_pad3_witness:
  "pad6 123456 [] = ''123456'' \<and> pad6 1234 ''x'' = ''x001234''"
proof -
  have a: "format_int (int 123456) = ''123456''"
    "pad3 (int (1234 mod 1000)) (pad3 (int (1234 div 1000)) ''x'') = ''x001234''"
    by (simp_all add: eval_text)
  have "pad6 123456 [] = [] @ format_int (int 123456)"
    by (rule pad6_pad3 [THEN conjunct1, rule_format]) simp
  moreover have "pad6 1234 ''x'' = pad3 (int (1234 mod 1000)) (pad3 (int (1234 div 1000)) ''x'')"
    by (rule pad6_pad3 [THEN conjunct2, THEN conjunct1, rule_format, THEN conjunct1]) simp
  ultimately show ?thesis
    by (simp only: a append_Nil simp_thms)
qed

section \<open>The directives\<close>

lemmas eval_compile = pattern_formatter_new_def compile_pattern_def handle_flag_def is_digit_def
  push_user_chars_def add_ch_def z_formatter_new_def

text \<open>
  C6. The 12-hour conversion used by \<open>%I\<close> and \<open>%r\<close> maps an hour above 12 to the hour
  minus 12 and leaves every other hour unchanged, so hour 0 stays 0; the marker of \<open>%p\<close>
  is \<open>PM\<close> exactly when the hour is at least 12 and \<open>AM\<close> otherwise.
\<close>

theorem to12h_ampm:
  "(tm_hour t > 12 \<longrightarrow> to12h t = tm_hour t - 12) \<and>
   (\<not> tm_hour t > 12 \<longrightarrow> to12h t = tm_hour t) \<and>
   (tm_hour t = 0 \<longrightarrow> to12h t = 0) \<and>
   (ampm t = ''PM'' \<longleftrightarrow> tm_hour t \<ge> 12) \<and>
   (ampm t = ''AM'' \<longleftrightarrow> \<not> tm_hour t \<ge> 12) \<and>
   formatters (pattern_formatter_new b ''%I'' pt) = [I_formatter] \<and>
   formatters (pattern_formatter_new b ''%r'' pt) = [r_formatter] \<and>
   formatters (pattern_formatter_new b ''%p'' pt) = [p_formatter] \<and>
   format b os I_formatter msg t = (I_formatter, put (fmt_pad (to12h t) 2) msg) \<and>
   format b os r_formatter msg t =
     (r_formatter, put (fmt_pad (to12h t) 2 @ '':'' @ fmt_pad (tm_min t) 2 @ '':''
        @ fmt_pad (tm_sec t) 2 @ '' '' @ ampm t) msg) \<and>
   format b os p_formatter msg t = (p_formatter, put (ampm t) msg)"
proof -
  have "formatters (pattern_formatter_new b ''%I'' pt) = [I_formatter]"
    "formatters (pattern_formatter_new b ''%r'' pt) = [r_formatter]"
    "formatters (pattern_formatter_new b ''%p'' pt) = [p_formatter]"
    by (simp_all add: eval_compile)
  moreover have "format b os r_formatter msg t =
     (r_formatter, put (fmt_pad (to12h t) 2 @ '':'' @ fmt_pad (tm_min t) 2 @ '':''
        @ fmt_pad (tm_sec t) 2 @ '' '' @ ampm t) msg)"
    by (simp add: pad_n_join3_def put_def)
  ultimately show ?thesis
    by (simp add: to12h_def ampm_def)
qed

theorem to12h_ampm_witness:
  "to12h (epoch_tm\<lparr>tm_hour := 15\<rparr>) = 3 \<and> ampm (epoch_tm\<lparr>tm_hour := 15\<rparr>) = ''PM'' \<and>
   to12h epoch_tm = 0 \<and> ampm epoch_tm = ''AM'' \<and> to12h (epoch_tm\<lparr>tm_hour := 12\<rparr>) = 12"
  using to12h_ampm [of "epoch_tm\<lparr>tm_hour := 15\<rparr>"] to12h_ampm [of epoch_tm]
    to12h_ampm [of "epoch_tm\<lparr>tm_hour := 12\<rparr>"]
  by (simp add: epoch_tm_def)

text \<open>
  C10. The abbreviated-month directive (\<open>%b\<close>, \<open>%h\<close>) selects from the fixed table
  Jan, Feb, Mar, Apr, May, June, July, Aug, Sept, Oct, Nov, Dec: for the month indices 5,
  6 and 8 it appends the four-character names June, July and Sept, so the abbreviated
  names are not all three characters wide.
\<close>

theorem months_abbreviated:
  "months = [''Jan'', ''Feb'', ''Mar'', ''Apr'', ''May'', ''June'', ''July'', ''Aug'', ''Sept'',
     ''Oct'', ''Nov'', ''Dec''] \<and>
   map length months = [3, 3, 3, 3, 3, 4, 4, 3, 4, 3, 3, 3] \<and>
   formatters (pattern_formatter_new b ''%b'' pt) = [b_formatter 0] \<and>
   formatters (pattern_formatter_new b ''%h'' pt) = [b_formatter 0] \<and>
   format b os (b_formatter len) msg t =
     (b_formatter len,
      msg\<lparr>formatted := pad_space_right len (formatted msg) (array_at months (tm_mon t))\<rparr>) \<and>
   snd (format b os (b_formatter 0) msg (t\<lparr>tm_mon := 5\<rparr>)) = put ''June'' msg \<and>
   snd (format b os (b_formatter 0) msg (t\<lparr>tm_mon := 6\<rparr>)) = put ''July'' msg \<and>
   snd (format b os (b_formatter 0) msg (t\<lparr>tm_mon := 8\<rparr>)) = put ''Sept'' msg"
proof -
  have "formatters (pattern_formatter_new b ''%b'' pt) = [b_formatter 0]"
    "formatters (pattern_formatter_new b ''%h'' pt) = [b_formatter 0]"
    by (simp_all add: eval_compile)
  moreover have "map length months = [3, 3, 3, 3, 3, 4, 4, 3, 4, 3, 3, 3]"
    by (simp add: months_def)
  moreover have "snd (format b os (b_formatter 0) msg (t\<lparr>tm_mon := 5\<rparr>)) = put ''June'' msg"
    "snd (format b os (b_formatter 0) msg (t\<lparr>tm_mon := 6\<rparr>)) = put ''July'' msg"
    "snd (format b os (b_formatter 0) msg (t\<lparr>tm_mon := 8\<rparr>)) = put ''Sept'' msg"
    by (simp_all add: pad_space_right_def array_at_def months_def put_def)
  ultimately show ?thesis
    by (simp add: months_def)
qed

section \<open>The UTC-offset directive and its cache\<close>

lemma z_format_text:
  "z_format b os z msg t =
     (if WIN32 b
      then (snd (get_cached_offset b os z msg t),
            put (offset_text_spec (fst (get_cached_offset b os z msg t))) msg)
      else (z, put (offset_text_spec (utc_minutes_offset os t)) msg))"
  by (simp add: z_format_def offset_text_spec_def pad_n_join2_def put_def Let_def
      split: prod.splits)

text \<open>
  C1, as amended. In a build that defines \<open>_WIN32\<close>, every invocation of the \<open>%z\<close>
  directive consults the cache: when the record's timestamp minus the last-refresh
  timestamp is at least the refresh window of 5 seconds, the offset is recomputed from
  the calendar source and both cache fields are updated; otherwise the cached offset is
  returned and the cache is unchanged, so an invocation whose timestamp is less than the
  window after the last refresh returns what the invocation before it returned. In any
  other build the offset is recomputed on every invocation and the cache is not touched.
\<close>

theorem z_offset_cache:
  "cache_refresh = 5 \<and>
   (time msg - last_update z \<ge> cache_refresh * log_clock_den b \<longrightarrow>
      get_cached_offset b os z msg t =
        (utc_minutes_offset os t,
         \<lparr>last_update = time msg, offset_minutes = utc_minutes_offset os t\<rparr>)) \<and>
   (time msg - last_update z < cache_refresh * log_clock_den b \<longrightarrow>
      get_cached_offset b os z msg t = (offset_minutes z, z)) \<and>
   (time msg2 - last_update (snd (get_cached_offset b os z msg t))
        < cache_refresh * log_clock_den b \<longrightarrow>
      get_cached_offset b os (snd (get_cached_offset b os z msg t)) msg2 t2 =
        get_cached_offset b os z msg t) \<and>
   (WIN32 b \<longrightarrow>
      format b os (z_formatter z) msg t =
        (z_formatter (snd (get_cached_offset b os z msg t)),
         put (offset_text_spec (fst (get_cached_offset b os z msg t))) msg)) \<and>
   (\<not> WIN32 b \<longrightarrow>
      format b os (z_formatter z) msg t =
        (z_formatter z, put (offset_text_spec (utc_minutes_offset os t)) msg))"
proof (intro conjI impI)
  show "cache_refresh = 5" by (simp add: cache_refresh_def)
next
  assume "time msg - last_update z \<ge> cache_refresh * log_clock_den b"
  then show "get_cached_offset b os z msg t =
        (utc_minutes_offset os t,
         \<lparr>last_update = time msg, offset_minutes = utc_minutes_offset os t\<rparr>)"
    by (simp add: get_cached_offset_def)
next
  assume "time msg - last_update z < cache_refresh * log_clock_den b"
  then show "get_cached_offset b os z msg t = (offset_minutes z, z)"
    by (simp add: get_cached_offset_def)
next
  assume "time msg2 - last_update (snd (get_cached_offset b os z msg t))
        < cache_refresh * log_clock_den b"
  then show "get_cached_offset b os (snd (get_cached_offset b os z msg t)) msg2 t2 =
        get_cached_offset b os z msg t"
    by (simp add: get_cached_offset_def split: if_splits)
next
  assume "WIN32 b"
  then show "format b os (z_formatter z) msg t =
        (z_formatter (snd (get_cached_offset b os z msg t)),
         put (offset_text_spec (fst (get_cached_offset b os z msg t))) msg)"
    by (simp add: z_format_text)
next
  assume "\<not> WIN32 b"
  then show "format b os (z_formatter z) msg t =
        (z_formatter z, put (offset_text_spec (utc_minutes_offset os t)) msg)"
    by (simp add: z_format_text)
qed

lemmas eval_records = win_build_def posix_build_def epoch_tm_def epoch_dst_tm_def
  example_os_def example_msg_def

theorem z_offset_cache_witness:
  "get_cached_offset win_build example_os \<lparr>last_update = 0, offset_minutes = 0\<rparr>
     (example_msg 1000000) epoch_tm = (60, \<lparr>last_update = 1000000, offset_minutes = 60\<rparr>) \<and>
   get_cached_offset win_build example_os \<lparr>last_update = 1000000, offset_minutes = 60\<rparr>
     (example_msg 1003000) epoch_dst_tm = (60, \<lparr>last_update = 1000000, offset_minutes = 60\<rparr>) \<and>
   formatted (snd (format win_build example_os
     (z_formatter \<lparr>last_update = 1000000, offset_minutes = 60\<rparr>)
     (example_msg 1003000) epoch_dst_tm)) = offset_text_spec 60 \<and>
   formatted (snd (format posix_build example_os
     (z_formatter \<lparr>last_update = 1000000, offset_minutes = 60\<rparr>)
     (example_msg 1003000) epoch_dst_tm)) = offset_text_spec 120 \<and>
   get_cached_offset win_build example_os
       (snd (get_cached_offset win_build example_os \<lparr>last_update = 0, offset_minutes = 0\<rparr>
          (example_msg 1000000) epoch_tm))
       (example_msg 1003000) epoch_dst_tm =
     get_cached_offset win_build example_os \<lparr>last_update = 0, offset_minutes = 0\<rparr>
       (example_msg 1000000) epoch_tm"
proof -
  let ?z0 = "\<lparr>last_update = 0, offset_minutes = 0\<rparr>"
  let ?z1 = "\<lparr>last_update = 1000000, offset_minutes = 60\<rparr>"
  have a: "get_cached_offset win_build example_os ?z0 (example_msg 1000000) epoch_tm = (60, ?z1)"
    using z_offset_cache [where msg = "example_msg 1000000" and z = "?z0" and b = win_build and os = example_os and t = epoch_tm]
    by (simp add: eval_records cache_refresh_def)
  have b: "get_cached_offset win_build example_os ?z1 (example_msg 1003000) epoch_dst_tm = (60, ?z1)"
    using z_offset_cache [where msg = "example_msg 1003000" and z = "?z1" and b = win_build and os = example_os and t = epoch_dst_tm]
    by (simp add: eval_records cache_refresh_def)
  have c: "formatted (snd (format win_build example_os (z_formatter ?z1)
     (example_msg 1003000) epoch_dst_tm)) = offset_text_spec 60"
    using z_offset_cache [where msg = "example_msg 1003000" and z = "?z1" and b = win_build and os = example_os and t = epoch_dst_tm]
    by (simp add: b) (simp add: eval_records put_def)
  have d: "formatted (snd (format posix_build example_os (z_formatter ?z1)
     (example_msg 1003000) epoch_dst_tm)) = offset_text_spec 120"
    using z_offset_cache [where msg = "example_msg 1003000" and z = "?z1" and b = posix_build and os = example_os and t = epoch_dst_tm]
    by (simp add: eval_records put_def)
  have e: "get_cached_offset win_build example_os
       (snd (get_cached_offset win_build example_os ?z0 (example_msg 1000000) epoch_tm))
       (example_msg 1003000) epoch_dst_tm =
     get_cached_offset win_build example_os ?z0 (example_msg 1000000) epoch_tm"
    by (rule z_offset_cache [THEN conjunct2, THEN conjunct2, THEN conjunct2, THEN conjunct1,
          rule_format])
      (simp add: a, simp add: eval_records cache_refresh_def)
  show ?thesis using a b c d e by simp
qed

text \<open>
  C1 as stated fails. With a cache refreshed at 1000 s, the records at 1003 s and 1006 s
  are 3 seconds apart, yet the first is served from the cache (\<open>+01:00\<close>) and the second
  refreshes it (\<open>+02:00\<close>): the window is measured from the last refresh, not from the
  previous record. And without \<open>_WIN32\<close> a record one millisecond after the refresh is
  not served from the cache.
\<close>

theorem z_offset_window_counterexample:
  "\<bar>time (example_msg 1006000) - time (example_msg 1003000)\<bar>
     < cache_refresh * log_clock_den win_build \<and>
   formatted (snd (format win_build example_os
     (z_formatter \<lparr>last_update = 1000000, offset_minutes = 60\<rparr>)
     (example_msg 1003000) epoch_tm)) = ''+01:00'' \<and>
   formatted (snd (format win_build example_os
     (fst (format win_build example_os
        (z_formatter \<lparr>last_update = 1000000, offset_minutes = 60\<rparr>)
        (example_msg 1003000) epoch_tm))
     (example_msg 1006000) epoch_dst_tm)) = ''+02:00'' \<and>
   formatted (snd (format posix_build example_os
     (z_formatter \<lparr>last_update = 1000000, offset_minutes = 60\<rparr>)
     (example_msg 1000001) epoch_dst_tm)) = ''+02:00''"
  by (simp add: eval_records cache_refresh_def z_format_text get_cached_offset_def
      offset_text_spec_def put_def eval_text)

section \<open>The pattern compiler: one directive at a time\<close>

lemma handle_flag_digit: "is_digit c \<Longrightarrow> handle_flag b c lc fs = (False, lc @ [c], fs)"
  by (simp add: handle_flag_def)

lemma handle_flag_selector:
  "\<not> is_digit c \<Longrightarrow>
     handle_flag b c lc fs = (True, [], fs @ snd (snd (handle_flag b c lc [])))"
  unfolding handle_flag_def Let_def
  by (simp split del: if_split cong: if_cong)

lemma push_user_chars_acc: "push_user_chars uc (fs @ gs) = fs @ push_user_chars uc gs"
  by (simp add: push_user_chars_def split: option.splits)

lemma loops_acc:
  "compile_loop b p uc lc (fs @ gs) =
     (case compile_loop b p uc lc gs of (uc1, lc1, hs) \<Rightarrow> (uc1, lc1, fs @ hs)) \<and>
   flag_loop b p uc lc (fs @ gs) =
     (case flag_loop b p uc lc gs of (uc1, lc1, hs) \<Rightarrow> (uc1, lc1, fs @ hs))"
proof (induction p arbitrary: uc lc gs)
  case Nil
  show ?case by simp
next
  case (Cons c rest)
  have 1: "compile_loop b (c # rest) uc lc (fs @ gs) =
     (case compile_loop b (c # rest) uc lc gs of (uc1, lc1, hs) \<Rightarrow> (uc1, lc1, fs @ hs))"
    using Cons.IH by (simp add: push_user_chars_acc)
  have 2: "flag_loop b (c # rest) uc lc (fs @ gs) =
     (case flag_loop b (c # rest) uc lc gs of (uc1, lc1, hs) \<Rightarrow> (uc1, lc1, fs @ hs))"
  proof (cases "is_digit c")
    case True
    then show ?thesis using Cons.IH by (simp add: handle_flag_digit)
  next
    case False
    have "handle_flag b c lc (fs @ gs) = (True, [], fs @ (gs @ snd (snd (handle_flag b c lc []))))"
      using handle_flag_selector [OF False, of b lc "fs @ gs"] by simp
    moreover have "handle_flag b c lc gs = (True, [], gs @ snd (snd (handle_flag b c lc [])))"
      by (rule handle_flag_selector [OF False])
    ultimately show ?thesis
      using Cons.IH [of uc "[]" "gs @ snd (snd (handle_flag b c lc []))"] by simp
  qed
  show ?case using 1 2 by simp
qed


lemma loops_append:
  "(\<not> open_directive False p \<longrightarrow>
      compile_loop b (p @ q) uc lc fs =
        (case compile_loop b p uc lc fs of (uc1, lc1, fs1) \<Rightarrow> compile_loop b q uc1 lc1 fs1)) \<and>
   (\<not> open_directive True p \<longrightarrow>
      flag_loop b (p @ q) uc lc fs =
        (case flag_loop b p uc lc fs of (uc1, lc1, fs1) \<Rightarrow> compile_loop b q uc1 lc1 fs1))"
proof (induction p arbitrary: uc lc fs)
  case Nil
  show ?case by simp
next
  case (Cons c rest)
  show ?case
  proof (intro conjI impI)
    assume "\<not> open_directive False (c # rest)"
    then show "compile_loop b ((c # rest) @ q) uc lc fs =
        (case compile_loop b (c # rest) uc lc fs of
           (uc1, lc1, fs1) \<Rightarrow> compile_loop b q uc1 lc1 fs1)"
      using Cons.IH by (cases "c = CHR ''%''") simp_all
  next
    assume h: "\<not> open_directive True (c # rest)"
    show "flag_loop b ((c # rest) @ q) uc lc fs =
        (case flag_loop b (c # rest) uc lc fs of
           (uc1, lc1, fs1) \<Rightarrow> compile_loop b q uc1 lc1 fs1)"
    proof (cases "is_digit c")
      case True
      then show ?thesis using h Cons.IH by (simp add: handle_flag_digit)
    next
      case False
      then show ?thesis
        using h Cons.IH by (simp add: handle_flag_selector [OF False, of b lc fs])
    qed
  qed
qed

lemma loops_length_chars:
  "(\<not> open_directive False p \<longrightarrow> fst (snd (compile_loop b p uc [] fs)) = []) \<and>
   (\<not> open_directive True p \<longrightarrow> fst (snd (flag_loop b p uc lc fs)) = [])"
proof (induction p arbitrary: uc lc fs)
  case Nil
  show ?case by simp
next
  case (Cons c rest)
  show ?case
  proof (intro conjI impI)
    assume "\<not> open_directive False (c # rest)"
    then show "fst (snd (compile_loop b (c # rest) uc [] fs)) = []"
      using Cons.IH by (cases "c = CHR ''%''") simp_all
  next
    assume h: "\<not> open_directive True (c # rest)"
    show "fst (snd (flag_loop b (c # rest) uc lc fs)) = []"
    proof (cases "is_digit c")
      case True
      then show ?thesis using h Cons.IH by (simp add: handle_flag_digit)
    next
      case False
      then show ?thesis
        using h Cons.IH by (simp add: handle_flag_selector [OF False, of b lc fs])
    qed
  qed
qed

lemma flag_loop_digits:
  "list_all is_digit ds \<Longrightarrow> flag_loop b (ds @ rest) uc lc fs = flag_loop b rest uc (lc @ ds) fs"
  by (induction ds arbitrary: lc) (simp_all add: handle_flag_digit)

lemma compile_loop_from_empty:
  "compile_loop b p uc lc fs =
     (case compile_loop b p uc lc [] of (uc1, lc1, hs) \<Rightarrow> (uc1, lc1, fs @ hs))"
  using loops_acc [of b p uc lc fs "[]"] by simp

text \<open>One directive in the middle of a pattern.\<close>

lemma compile_directive:
  assumes pre: "\<not> open_directive False pre" and ds: "list_all is_digit ds"
    and c: "\<not> is_digit c"
  shows "formatters (pattern_formatter_new b (pre @ CHR ''%'' # ds @ c # post) pt) =
     formatters (pattern_formatter_new b pre pt) @ snd (snd (handle_flag b c ds []))
       @ formatters (pattern_formatter_new b post pt)"
proof -
  obtain uc1 lc1 fs1 where r1: "compile_loop b pre None [] [] = (uc1, lc1, fs1)"
    by (cases "compile_loop b pre None [] []") auto
  have lc1: "lc1 = []"
    using loops_length_chars [of pre b None "[]" "[]"] pre r1 by simp
  obtain uc2 lc2 fs2 where r2: "compile_loop b post None [] [] = (uc2, lc2, fs2)"
    by (cases "compile_loop b post None [] []") auto
  let ?f = "snd (snd (handle_flag b c ds []))"
  let ?mid = "push_user_chars uc1 fs1 @ ?f"
  have "compile_loop b (pre @ CHR ''%'' # ds @ c # post) None [] [] =
      compile_loop b (CHR ''%'' # ds @ c # post) uc1 [] fs1"
    using loops_append [of pre b "CHR ''%'' # ds @ c # post" None "[]" "[]"] pre r1 lc1
    by simp
  also have "\<dots> = flag_loop b (c # post) None ds (push_user_chars uc1 fs1)"
    using flag_loop_digits [OF ds, of b "c # post" None "[]"] by simp
  also have "\<dots> = compile_loop b post None [] ?mid"
    by (simp add: handle_flag_selector [OF c, of b ds "push_user_chars uc1 fs1"])
  also have "\<dots> = (uc2, lc2, ?mid @ fs2)"
    using compile_loop_from_empty [of b post None "[]" ?mid] r2 by simp
  finally have "compile_loop b (pre @ CHR ''%'' # ds @ c # post) None [] [] =
      (uc2, lc2, ?mid @ fs2)" .
  then show ?thesis
    using r1 r2
    by (simp add: pattern_formatter_new_def compile_pattern_def push_user_chars_acc)
qed


lemma handle_flag_unknown:
  assumes "\<not> is_digit c" "c \<notin> set (catalog b)"
  shows "handle_flag b c lc fs = (True, [], fs @ [aggregate_formatter (CHR ''%'' # lc @ [c])])"
  using assms by (auto simp add: handle_flag_def catalog_def Let_def split: if_splits)

lemma handle_flag_known:
  assumes "c \<in> set (catalog b)"
  shows "snd (snd (handle_flag b c lc fs)) \<noteq> fs @ [aggregate_formatter str]"
  using assms
  by (auto simp add: handle_flag_def catalog_def is_digit_def z_formatter_new_def
      split: if_splits)

text \<open>
  C3. For every pattern and every selector character that is not in the directive
  catalog, compilation succeeds and emits a literal directive whose text is the consumed
  source text: \<open>%\<close>, the width digits and the selector; a selector of the catalog never
  yields that literal. In particular \<open>%3Q\<close> compiles to the literal \<open>%3Q\<close> and is
  rendered as such.
\<close>

theorem unknown_selector_literal:
  "(\<not> is_digit c \<and> c \<notin> set (catalog b) \<longrightarrow>
      handle_flag b c lc fs = (True, [], fs @ [aggregate_formatter (CHR ''%'' # lc @ [c])])) \<and>
   (\<not> is_digit c \<and> c \<notin> set (catalog b) \<and> list_all is_digit ds \<and>
    \<not> open_directive False pre \<longrightarrow>
      formatters (pattern_formatter_new b (pre @ CHR ''%'' # ds @ c # post) pt) =
        formatters (pattern_formatter_new b pre pt) @ [aggregate_formatter (CHR ''%'' # ds @ [c])]
          @ formatters (pattern_formatter_new b post pt)) \<and>
   (c \<in> set (catalog b) \<longrightarrow>
      snd (snd (handle_flag b c lc fs)) \<noteq> fs @ [aggregate_formatter str]) \<and>
   format b os (aggregate_formatter str) msg t = (aggregate_formatter str, put str msg) \<and>
   pattern_formatter_new b ''%3Q'' pt = \<lparr>pattern_time = pt, formatters = [aggregate_formatter ''%3Q'']\<rparr> \<and>
   formatted (snd (pattern_format b os (pattern_formatter_new b ''%3Q'' pt) msg)) =
     formatted msg @ ''%3Q'' @ eol os"
proof -
  have a: "handle_flag b c lc fs = (True, [], fs @ [aggregate_formatter (CHR ''%'' # lc @ [c])])"
    if "\<not> is_digit c \<and> c \<notin> set (catalog b)"
    using that by (simp add: handle_flag_unknown)
  have b: "formatters (pattern_formatter_new b (pre @ CHR ''%'' # ds @ c # post) pt) =
        formatters (pattern_formatter_new b pre pt) @ [aggregate_formatter (CHR ''%'' # ds @ [c])]
          @ formatters (pattern_formatter_new b post pt)"
    if "\<not> is_digit c \<and> c \<notin> set (catalog b) \<and> list_all is_digit ds \<and>
      \<not> open_directive False pre"
    using that compile_directive [of pre ds c b post pt] handle_flag_unknown [of c b ds "[]"]
    by simp
  have c: "pattern_formatter_new b ''%3Q'' pt =
      \<lparr>pattern_time = pt, formatters = [aggregate_formatter ''%3Q'']\<rparr>"
    by (simp add: eval_compile)
  have d: "formatted (snd (pattern_format b os (pattern_formatter_new b ''%3Q'' pt) msg)) =
     formatted msg @ ''%3Q'' @ eol os"
    by (simp only: c) (simp add: pattern_format_def put_def Let_def)
  have e: "snd (snd (handle_flag b c lc fs)) \<noteq> fs @ [aggregate_formatter str]"
    if "c \<in> set (catalog b)"
    using that by (rule handle_flag_known)
  show ?thesis
    using a b c d e by (intro conjI impI) simp_all
qed

theorem unknown_selector_literal_witness:
  "CHR ''n'' \<in> set (catalog win_build) \<and>
   snd (snd (handle_flag win_build CHR ''n'' ''3'' [])) \<noteq> [aggregate_formatter ''%3n''] \<and>
   handle_flag win_build CHR ''Q'' ''3'' [] = (True, [], [aggregate_formatter ''%3Q'']) \<and>
   formatters (pattern_formatter_new win_build ''a%3Qb%i'' local) =
     [aggregate_formatter ''a'', aggregate_formatter ''%3Q'', aggregate_formatter ''b'',
      aggregate_formatter ''%i'']"
proof -
  have h: "\<not> is_digit CHR ''Q''" "CHR ''Q'' \<notin> set (catalog win_build)"
    "list_all is_digit ''3''" "\<not> open_directive False ''a''"
    by (simp_all add: is_digit_def catalog_def win_build_def)
  have 1: "handle_flag win_build CHR ''Q'' ''3'' [] = (True, [], [aggregate_formatter ''%3Q''])"
    using unknown_selector_literal [where c = "CHR ''Q''" and b = win_build and lc = "''3''"
        and fs = "[]"] h
    by simp
  have 2: "formatters (pattern_formatter_new win_build (''a'' @ CHR ''%'' # ''3'' @ CHR ''Q'' # ''b%i'') local) =
     formatters (pattern_formatter_new win_build ''a'' local) @ [aggregate_formatter ''%3Q'']
       @ formatters (pattern_formatter_new win_build ''b%i'' local)"
    using unknown_selector_literal [where c = "CHR ''Q''" and b = win_build and ds = "''3''"
        and pre = "''a''" and post = "''b%i''" and pt = local] h
    by simp
  have 3: "formatters (pattern_formatter_new win_build ''a'' local) = [aggregate_formatter ''a'']"
    "formatters (pattern_formatter_new win_build ''b%i'' local) =
       [aggregate_formatter ''b'', aggregate_formatter ''%i'']"
    by (simp_all add: eval_compile win_build_def)
  have k: "CHR ''n'' \<in> set (catalog win_build)"
    by (simp add: catalog_def)
  have 4: "snd (snd (handle_flag win_build CHR ''n'' ''3'' [])) \<noteq>
      [] @ [aggregate_formatter ''%3n'']"
    using unknown_selector_literal [where c = "CHR ''n''" and b = win_build and lc = "''3''"
        and fs = "[]" and str = "''%3n''"] k
    by blast
  show ?thesis using 1 2 3 4 k by simp
qed

text \<open>
  C4, as amended. For every pattern \<open>p\<close> whose scan does not stop inside a directive (a
  \<open>%\<close> followed by width digits only), compiling \<open>p\<close> with a bare \<open>%\<close> appended gives the
  chain compiled from \<open>p\<close> alone, hence the same output on every record: the trailing \<open>%\<close>
  is dropped and no directive is emitted for it.
\<close>

theorem trailing_percent_dropped:
  "\<not> open_directive False p \<longrightarrow>
     compile_pattern b (p @ ''%'') pf = compile_pattern b p pf \<and>
     pattern_formatter_new b (p @ ''%'') pt = pattern_formatter_new b p pt \<and>
     pattern_format b os (pattern_formatter_new b (p @ ''%'') pt) msg =
       pattern_format b os (pattern_formatter_new b p pt) msg"
proof
  assume h: "\<not> open_directive False p"
  have a: "compile_pattern b (p @ ''%'') pf = compile_pattern b p pf" for pf
  proof -
    obtain uc1 lc1 fs1 where r: "compile_loop b p None [] (formatters pf) = (uc1, lc1, fs1)"
      by (cases "compile_loop b p None [] (formatters pf)") auto
    have "compile_loop b (p @ ''%'') None [] (formatters pf) =
        (None, lc1, push_user_chars uc1 fs1)"
      using loops_append [of p b "''%''" None "[]" "formatters pf"] h r by simp
    then show ?thesis
      using r by (simp add: compile_pattern_def push_user_chars_def)
  qed
  then have b: "pattern_formatter_new b (p @ ''%'') pt = pattern_formatter_new b p pt"
    by (simp add: pattern_formatter_new_def)
  show "compile_pattern b (p @ ''%'') pf = compile_pattern b p pf \<and>
     pattern_formatter_new b (p @ ''%'') pt = pattern_formatter_new b p pt \<and>
     pattern_format b os (pattern_formatter_new b (p @ ''%'') pt) msg =
       pattern_format b os (pattern_formatter_new b p pt) msg"
    by (simp add: a b)
qed

theorem trailing_percent_dropped_witness:
  "\<not> open_directive False ''[%n] %5l'' \<and>
   pattern_formatter_new win_build ''[%n] %5l%'' local =
     pattern_formatter_new win_build ''[%n] %5l'' local \<and>
   \<not> open_directive False ''abc'' \<and>
   formatters (pattern_formatter_new win_build ''abc%'' local) = [aggregate_formatter ''abc'']"
proof -
  have h: "\<not> open_directive False ''[%n] %5l''" "\<not> open_directive False ''abc''"
    by (simp_all add: is_digit_def)
  have 1: "pattern_formatter_new win_build (''[%n] %5l'' @ ''%'') local =
      pattern_formatter_new win_build ''[%n] %5l'' local"
    using trailing_percent_dropped [where p = "''[%n] %5l''" and b = win_build and pt = local] h
    by blast
  have 2: "pattern_formatter_new win_build (''abc'' @ ''%'') local =
      pattern_formatter_new win_build ''abc'' local"
    using trailing_percent_dropped [where p = "''abc''" and b = win_build and pt = local] h
    by blast
  have 3: "formatters (pattern_formatter_new win_build ''abc'' local) = [aggregate_formatter ''abc'']"
    by (simp add: eval_compile)
  show ?thesis using h 1 2 3 by simp
qed

text \<open>
  C4 as stated fails for a pattern that itself stops inside a directive: after \<open>%\<close> the
  appended \<open>%\<close> is the selector of that directive, unknown, and is echoed.
\<close>

theorem trailing_percent_counterexample:
  "formatted (snd (pattern_format win_build example_os
      (pattern_formatter_new win_build (''%'' @ ''%'') local) (example_msg 0))) = ''%%'' @ [CHR 0x0A] \<and>
   formatted (snd (pattern_format win_build example_os
      (pattern_formatter_new win_build ''%'' local) (example_msg 0))) = [CHR 0x0A] \<and>
   formatters (pattern_formatter_new win_build (''a%5'' @ ''%'') local) =
     [aggregate_formatter ''a'', aggregate_formatter ''%5%''] \<and>
   formatters (pattern_formatter_new win_build ''a%5'' local) = [aggregate_formatter ''a'']"
  by (simp add: eval_compile pattern_format_def put_def eval_records)

text \<open>
  C2. The switch of \<open>handle_flag\<close> sends the selector \<open>P\<close> to \<open>pid_formatter\<close> with the parsed
  width, and that directive would append the process id, space-padded on the right; but
  the constructor it calls is private, unlike that of its sibling \<open>t_formatter\<close>, so the
  \<open>new\<close> expression is not well-formed and no such directive can be constructed.
\<close>

theorem pid_constructor_private:
  "snd (snd (handle_flag b CHR ''P'' lc fs)) =
     fs @ [pid_formatter (if lc \<noteq> [] then strtoul b lc else 0)] \<and>
   constructor_access (pid_formatter (if lc \<noteq> [] then strtoul b lc else 0)) = Private \<and>
   constructor_access (t_formatter len) = Public \<and>
   format b os (pid_formatter len) msg t =
     (pid_formatter len,
      msg\<lparr>formatted := formatted msg @ format_int (int (pid os))
         @ replicate (len - length (format_int (int (pid os)))) CHR '' ''\<rparr>)"
  by (simp add: handle_flag_def is_digit_def pad_space_right_val_def format_left_aligned_def)

section \<open>Sub-second fractions\<close>

lemma static_cast_int_range: "- (2 ^ 31) \<le> v \<Longrightarrow> v < 2 ^ 31 \<Longrightarrow> static_cast_int v = v"
  unfolding static_cast_int_def
  by (simp add: signed_take_bit_int_eq_self)

lemma sdiv_rescale:
  assumes "0 < den" "0 < u"
  shows "((d * u) sdiv den) sdiv u = (d::int) sdiv den"
proof -
  have pos: "((e * u) sdiv den) sdiv u = e sdiv den" if "0 \<le> e" for e :: int
  proof -
    have "0 \<le> e * u" using that assms by simp
    moreover have "0 \<le> (e * u) div den" using that assms by (simp add: pos_imp_zdiv_nonneg_iff)
    ultimately have "((e * u) sdiv den) sdiv u = (e * u) div den div u"
      using assms by (simp add: sdiv_nonneg)
    also have "\<dots> = (e * u) div (den * u)"
      using assms by (simp add: zdiv_zmult2_eq)
    also have "\<dots> = e div den" using assms by simp
    also have "\<dots> = e sdiv den" using that assms by (simp add: sdiv_nonneg)
    finally show ?thesis .
  qed
  show ?thesis
  proof (cases "0 \<le> d")
    case True
    then show ?thesis by (rule pos)
  next
    case False
    then have "0 \<le> - d" by simp
    from pos [OF this] have "((- (d * u)) sdiv den) sdiv u = (- d) sdiv den" by simp
    then show ?thesis by simp
  qed
qed

lemma smod_is_time_fraction:
  assumes "0 < den" "0 < u"
  shows "duration_cast den u d smod u = time_fraction den u d"
proof -
  let ?x = "(d * u) sdiv den"
  have "?x smod u = ?x - ?x sdiv u * u"
    by (simp add: minus_sdiv_mult_eq_smod)
  also have "\<dots> = ?x - d sdiv den * u"
    by (simp add: sdiv_rescale [OF assms])
  finally show ?thesis
    by (simp add: time_fraction_def duration_cast_def Let_def)
qed

lemma time_fraction_range:
  assumes "0 < den" "0 < u" "0 \<le> d"
  shows "0 \<le> time_fraction den u d" "time_fraction den u d < u"
proof -
  have "0 \<le> d * u" using assms by simp
  then have "0 \<le> (d * u) div den" using assms by (simp add: pos_imp_zdiv_nonneg_iff)
  then have x: "0 \<le> duration_cast den u d"
    using assms \<open>0 \<le> d * u\<close> by (simp add: duration_cast_def sdiv_nonneg)
  show "0 \<le> time_fraction den u d" "time_fraction den u d < u"
    using smod_int_compares(1,2) [OF x assms(2)] smod_is_time_fraction [OF assms(1,2), of d]
    by simp_all
qed

lemma time_fraction_bounds:
  assumes "0 < den" "0 < u"
  shows "- u < time_fraction den u d" "time_fraction den u d < u"
proof -
  have "duration_cast den u d smod u \<in> {- \<bar>u\<bar> + 1..\<bar>u\<bar> - 1}"
    by (rule smod_int_range) (use assms in simp)
  then show "- u < time_fraction den u d" "time_fraction den u d < u"
    using assms smod_is_time_fraction [OF assms, of d] by simp_all
qed

lemma dec_digits_length:
  "0 < k \<Longrightarrow> n < 10 ^ k \<Longrightarrow> length (dec_digits n) \<le> k"
proof (induction n arbitrary: k rule: dec_digits.induct)
  case (1 n)
  show ?case
  proof (cases "n < 10")
    case True
    then show ?thesis using "1.prems" by (simp add: dec_digits_one)
  next
    case False
    obtain j where k: "k = Suc j" using "1.prems"(1) by (cases k) auto
    have "0 < j"
    proof (rule ccontr)
      assume "\<not> 0 < j"
      then have "k = 1" using k by simp
      then show False using "1.prems"(2) False by simp
    qed
    moreover have "n div 10 < 10 ^ j"
      using "1.prems"(2) k by (simp add: less_mult_imp_div_less mult.commute)
    ultimately have "length (dec_digits (n div 10)) \<le> j"
      using "1.IH" [OF False] by simp
    then show ?thesis
      using False k by (subst dec_digits.simps) simp
  qed
qed

lemma is_digit_char_of: "d < 10 \<Longrightarrow> is_digit (char_of (48 + d :: nat))"
proof -
  assume "d < 10"
  then have "(48 + d) mod 256 = 48 + d" by simp
  then show ?thesis using \<open>d < 10\<close> by (simp add: is_digit_def)
qed

lemma dec_digits_are_digits: "list_all is_digit (dec_digits n)"
proof (induction n rule: dec_digits.induct)
  case (1 n)
  show ?case
  proof (cases "n < 10")
    case True
    then show ?thesis by (simp add: dec_digits_one is_digit_char_of)
  next
    case False
    then show ?thesis
      using "1.IH" by (subst dec_digits.simps) (simp add: is_digit_char_of)
  qed
qed

lemma is_digit_zero: "is_digit CHR ''0''"
  by (simp add: is_digit_def)

lemma fmt_pad_nonneg:
  "0 \<le> v \<Longrightarrow>
     fmt_pad v w = replicate (w - length (dec_digits (nat v))) CHR ''0'' @ dec_digits (nat v)"
  by (simp add: fmt_pad_def format_to_zero_def)

lemma fmt_pad_fixed_width:
  assumes "0 \<le> v" "v < 10 ^ w" "0 < w"
  shows "length (fmt_pad v w) = w" "list_all is_digit (fmt_pad v w)"
proof -
  have "nat v < 10 ^ w" using assms by (simp add: nat_less_iff)
  then have "length (dec_digits (nat v)) \<le> w"
    using assms(3) by (intro dec_digits_length)
  then show "length (fmt_pad v w) = w"
    using assms(1) by (simp add: fmt_pad_nonneg)
  have "list_all is_digit (replicate (w - length (dec_digits (nat v))) CHR ''0'')"
    by (simp add: list_all_iff is_digit_zero)
  then show "list_all is_digit (fmt_pad v w)"
    using assms(1) by (simp add: fmt_pad_nonneg dec_digits_are_digits)
qed


text \<open>
  C9, as amended. For every record, the sub-second directives \<open>%e\<close>, \<open>%f\<close> and \<open>%F\<close>
  append the zero-padded rendering, of width 3, 6 and 9, of the sub-second remainder of the
  record's timestamp in milliseconds, microseconds and nanoseconds (the cast of the
  duration minus the cast of its whole seconds); for every record whose timestamp is not
  before the epoch that text is exactly 3, 6 and 9 decimal digits. The clock's ticks per
  second are positive.
\<close>

theorem subsecond_directives:
  "0 < log_clock_den b \<longrightarrow>
     formatters (pattern_formatter_new b ''%e%f%F'' pt) = [e_formatter, f_formatter, F_formatter] \<and>
     snd (format b os e_formatter msg t) =
       put (fmt_pad (time_fraction (log_clock_den b) 1000 (time msg)) 3) msg \<and>
     snd (format b os f_formatter msg t) =
       put (fmt_pad (time_fraction (log_clock_den b) 1000000 (time msg)) 6) msg \<and>
     snd (format b os F_formatter msg t) =
       put (fmt_pad (time_fraction (log_clock_den b) 1000000000 (time msg)) 9) msg \<and>
     (0 \<le> time msg \<longrightarrow>
        length (fmt_pad (time_fraction (log_clock_den b) 1000 (time msg)) 3) = 3 \<and>
        list_all is_digit (fmt_pad (time_fraction (log_clock_den b) 1000 (time msg)) 3) \<and>
        length (fmt_pad (time_fraction (log_clock_den b) 1000000 (time msg)) 6) = 6 \<and>
        list_all is_digit (fmt_pad (time_fraction (log_clock_den b) 1000000 (time msg)) 6) \<and>
        length (fmt_pad (time_fraction (log_clock_den b) 1000000000 (time msg)) 9) = 9 \<and>
        list_all is_digit (fmt_pad (time_fraction (log_clock_den b) 1000000000 (time msg)) 9))"
proof
  assume den: "0 < log_clock_den b"
  let ?den = "log_clock_den b"
  have cast: "static_cast_int (time_fraction ?den u (time msg)) = time_fraction ?den u (time msg)"
    if "0 < u" "u \<le> 1000000000" for u
  proof (rule static_cast_int_range)
    show "- (2 ^ 31) \<le> time_fraction ?den u (time msg)"
      using time_fraction_bounds(1) [OF den that(1), of "time msg"] that(2) by simp
    show "time_fraction ?den u (time msg) < 2 ^ 31"
      using time_fraction_bounds(2) [OF den that(1), of "time msg"] that(2) by simp
  qed
  have c: "formatters (pattern_formatter_new b ''%e%f%F'' pt) =
      [e_formatter, f_formatter, F_formatter]"
    by (simp add: eval_compile)
  have e: "snd (format b os e_formatter msg t) =
       put (fmt_pad (time_fraction ?den 1000 (time msg)) 3) msg"
    using cast [of 1000] by (simp add: Let_def smod_is_time_fraction [OF den])
  have f: "snd (format b os f_formatter msg t) =
       put (fmt_pad (time_fraction ?den 1000000 (time msg)) 6) msg"
    using cast [of 1000000] by (simp add: Let_def smod_is_time_fraction [OF den])
  have F: "snd (format b os F_formatter msg t) =
       put (fmt_pad (time_fraction ?den 1000000000 (time msg)) 9) msg"
    using cast [of 1000000000] by (simp add: Let_def smod_is_time_fraction [OF den])
  have w: "length (fmt_pad (time_fraction ?den (10 ^ k) (time msg)) k) = k \<and>
      list_all is_digit (fmt_pad (time_fraction ?den (10 ^ k) (time msg)) k)"
    if "0 \<le> time msg" "0 < k" for k
    using time_fraction_range [OF den _ that(1), of "10 ^ k"] that(2)
    by (simp add: fmt_pad_fixed_width)
  show "formatters (pattern_formatter_new b ''%e%f%F'' pt) = [e_formatter, f_formatter, F_formatter] \<and>
     snd (format b os e_formatter msg t) =
       put (fmt_pad (time_fraction (log_clock_den b) 1000 (time msg)) 3) msg \<and>
     snd (format b os f_formatter msg t) =
       put (fmt_pad (time_fraction (log_clock_den b) 1000000 (time msg)) 6) msg \<and>
     snd (format b os F_formatter msg t) =
       put (fmt_pad (time_fraction (log_clock_den b) 1000000000 (time msg)) 9) msg \<and>
     (0 \<le> time msg \<longrightarrow>
        length (fmt_pad (time_fraction (log_clock_den b) 1000 (time msg)) 3) = 3 \<and>
        list_all is_digit (fmt_pad (time_fraction (log_clock_den b) 1000 (time msg)) 3) \<and>
        length (fmt_pad (time_fraction (log_clock_den b) 1000000 (time msg)) 6) = 6 \<and>
        list_all is_digit (fmt_pad (time_fraction (log_clock_den b) 1000000 (time msg)) 6) \<and>
        length (fmt_pad (time_fraction (log_clock_den b) 1000000000 (time msg)) 9) = 9 \<and>
        list_all is_digit (fmt_pad (time_fraction (log_clock_den b) 1000000000 (time msg)) 9))"
    using c e f F w [of 3] w [of 6] w [of 9] by simp
qed

lemma example_fractions:
  "time_fraction 1000 1000 1234567 = 567" "time_fraction 1000 1000000 1234567 = 567000"
  "time_fraction 1000 1000000000 1234567 = 567000000" "time_fraction 1000 1000 (- 500) = - 500"
  by (simp_all add: time_fraction_def duration_cast_def Let_def signed_divide_int_def)

theorem subsecond_directives_witness:
  "0 < log_clock_den win_build \<and> 0 \<le> time (example_msg 1234567) \<and>
   formatted (snd (format win_build example_os e_formatter (example_msg 1234567) epoch_tm)) = ''567'' \<and>
   formatted (snd (format win_build example_os f_formatter (example_msg 1234567) epoch_tm)) = ''567000'' \<and>
   formatted (snd (format win_build example_os F_formatter (example_msg 1234567) epoch_tm)) = ''567000000'' \<and>
   length (fmt_pad (time_fraction (log_clock_den win_build) 1000 (time (example_msg 1234567))) 3) = 3"
proof -
  have h: "0 < log_clock_den win_build" "0 \<le> time (example_msg 1234567)"
    by (simp_all add: eval_records)
  have v: "log_clock_den win_build = 1000" "time (example_msg 1234567) = 1234567"
    "formatted (example_msg 1234567) = []"
    by (simp_all add: eval_records)
  have p: "fmt_pad 567 3 = ''567''" "fmt_pad 567000 6 = ''567000''"
    "fmt_pad 567000000 9 = ''567000000''"
    by (simp_all add: eval_text)
  show ?thesis
    using subsecond_directives [where b = win_build and msg = "example_msg 1234567"
        and os = example_os and t = epoch_tm] h
    by (simp add: v example_fractions p put_def)
qed

text \<open>
  C9 as stated fails for a record stamped half a second before the epoch: the remainder
  is \<open>-500\<close> milliseconds and \<open>%e\<close> appends four characters, a sign among them.
\<close>

theorem subsecond_before_epoch_counterexample:
  "formatted (snd (format win_build example_os e_formatter (example_msg (- 500)) epoch_tm)) = ''-500'' \<and>
   length ''-500'' \<noteq> (3::nat) \<and> \<not> list_all is_digit ''-500'' \<and>
   time_fraction (log_clock_den win_build) 1000 (time (example_msg (- 500))) = - 500"
proof -
  have v: "log_clock_den win_build = 1000" "time (example_msg (- 500)) = - 500"
    "formatted (example_msg (- 500)) = []"
    by (simp_all add: eval_records)
  have p: "fmt_pad (- 500) 3 = ''-500''"
    by (simp add: eval_text)
  have s: "static_cast_int (- 500) = - 500"
    by (rule static_cast_int_range) simp_all
  have d: "duration_cast 1000 1000 (- 500) smod 1000 = - 500"
    by (simp add: duration_cast_def signed_divide_int_def signed_modulo_int_def)
  show ?thesis
    by (simp add: v p s d example_fractions put_def Let_def is_digit_def)
qed

section \<open>The full-line directive and the default pattern\<close>

lemma static_cast_unsigned_id: "0 \<le> v \<Longrightarrow> v < 2 ^ 32 \<Longrightarrow> static_cast_unsigned v = v"
  by (simp add: static_cast_unsigned_def)

lemma char_of_int_nat: "char_of (48 + int k) = char_of (48 + k)"
  using char_of_int_digit [of "int k"] by simp

lemma dec_digits_ge1: "Suc 0 \<le> length (dec_digits n)"
  by (subst dec_digits.simps) simp

lemma dec_digits_ge2: "10 \<le> n \<Longrightarrow> 2 \<le> length (dec_digits n)"
  using dec_digits_ge1 [of "n div 10"] by (subst dec_digits.simps) simp

lemma dec_digits_ge3: "100 \<le> n \<Longrightarrow> 3 \<le> length (dec_digits n)"
  using dec_digits_ge2 [of "n div 10"] by (subst dec_digits.simps) simp

lemma pad2_nat:
  assumes "m < 100"
  shows "pad2 (int m) [] = [char_of (48 + m div 10), char_of (48 + m mod 10)]"
proof (cases "m < 10")
  case True
  then show ?thesis
    by (simp add: pad2_def push_back_def char_of_int_nat digit_chars_nat)
next
  case False
  have "int m sdiv 10 = int (m div 10)" "int m smod 10 = int (m mod 10)"
    by (simp_all add: sdiv_nonneg smod_nonneg zdiv_int zmod_int)
  then show ?thesis
    using False assms by (simp add: pad2_def push_back_def char_of_int_nat)
qed

lemma zero_pad2_nat:
  assumes "m < 100"
  shows "replicate (2 - length (dec_digits m)) CHR ''0'' @ dec_digits m =
     [char_of (48 + m div 10), char_of (48 + m mod 10)]"
proof (cases "m < 10")
  case True
  then show ?thesis by (simp add: dec_digits_one digit_chars_nat)
next
  case False
  then show ?thesis using assms by (simp add: dec_digits_two)
qed

lemma fmt_pad_2: "0 \<le> v \<Longrightarrow> fmt_pad v 2 = pad2 v []"
proof -
  assume v: "0 \<le> v"
  show ?thesis
  proof (cases "v > 99")
    case True
    then have "2 \<le> length (dec_digits (nat v))" by (intro dec_digits_ge2) simp
    then show ?thesis
      using True v by (simp add: fmt_pad_nonneg pad2_def append_int_def format_int_def)
  next
    case False
    then have m: "nat v < 100" using v by simp
    show ?thesis
      using pad2_nat [OF m] zero_pad2_nat [OF m] v by (simp add: fmt_pad_nonneg)
  qed
qed

lemma dec_digits_three:
  assumes "100 \<le> n" "n < 1000"
  shows "dec_digits n =
     [char_of (48 + n div 100), char_of (48 + n div 10 mod 10), char_of (48 + n mod 10)]"
proof -
  have "10 \<le> n div 10" "n div 10 < 100" using assms by simp_all
  then have "dec_digits (n div 10) =
      [char_of (48 + n div 10 div 10), char_of (48 + n div 10 mod 10)]"
    by (rule dec_digits_two)
  moreover have "n div 10 div 10 = n div 100" by (simp add: div_mult2_eq [symmetric])
  ultimately show ?thesis
    using assms by (subst dec_digits.simps) simp
qed

lemma pad3_nat:
  assumes "n < 1000"
  shows "pad3 (int n) [] =
     [char_of (48 + n div 100), char_of (48 + n div 10 mod 10), char_of (48 + n mod 10)]"
proof -
  consider "n < 10" | "10 \<le> n" "n < 100" | "100 \<le> n" by linarith
  then show ?thesis
  proof cases
    case 1
    then show ?thesis
      by (simp add: pad3_def push_back_def char_of_int_nat digit_chars_nat)
  next
    case 2
    have "int n sdiv 10 = int (n div 10)" "int n smod 10 = int (n mod 10)"
      by (simp_all add: sdiv_nonneg smod_nonneg zdiv_int zmod_int)
    moreover have "n div 10 mod 10 = n div 10" using 2 by simp
    ultimately show ?thesis
      using 2 by (simp add: pad3_def push_back_def char_of_int_nat digit_chars_nat)
  next
    case 3
    have a: "int n sdiv 100 = int (n div 100)" "int n smod 100 = int (n mod 100)"
      by (simp_all add: sdiv_nonneg smod_nonneg zdiv_int zmod_int)
    have m: "n mod 100 < 100" by simp
    have e: "n mod 100 = 10 * (n div 10 mod 10) + n mod 10"
      using mod_mult2_eq [of n 10 10] by simp
    have b: "n mod 100 div 10 = n div 10 mod 10" "n mod 100 mod 10 = n mod 10"
      by (simp_all only: e) simp_all
    have "pad3 (int n) [] = pad2 (int (n mod 100)) [char_of (48 + n div 100)]"
      using 3 assms by (simp add: pad3_def push_back_def a char_of_int_nat)
    also have "\<dots> = [char_of (48 + n div 100)] @ pad2 (int (n mod 100)) []"
      by (rule pad2_append)
    finally show ?thesis
      by (simp add: pad2_nat [OF m] b)
  qed
qed

lemma zero_pad3_nat:
  assumes "n < 1000"
  shows "replicate (3 - length (dec_digits n)) CHR ''0'' @ dec_digits n =
     [char_of (48 + n div 100), char_of (48 + n div 10 mod 10), char_of (48 + n mod 10)]"
proof -
  consider "n < 10" | "10 \<le> n" "n < 100" | "100 \<le> n" by linarith
  then show ?thesis
  proof cases
    case 1
    then show ?thesis by (simp add: dec_digits_one digit_chars_nat numeral_2_eq_2)
  next
    case 2
    moreover have "n div 10 mod 10 = n div 10" using 2 by simp
    ultimately show ?thesis
      by (simp add: dec_digits_two digit_chars_nat)
  next
    case 3
    then show ?thesis using assms by (simp add: dec_digits_three)
  qed
qed

lemma fmt_pad_3: "0 \<le> v \<Longrightarrow> fmt_pad v 3 = pad3 v []"
proof -
  assume v: "0 \<le> v"
  show ?thesis
  proof (cases "v > 999")
    case True
    then have "3 \<le> length (dec_digits (nat v))" by (intro dec_digits_ge3) simp
    then show ?thesis
      using True v by (simp add: fmt_pad_nonneg pad3_def append_int_def format_int_def)
  next
    case False
    then have m: "nat v < 1000" using v by simp
    show ?thesis
      using pad3_nat [OF m] zero_pad3_nat [OF m] v by (simp add: fmt_pad_nonneg)
  qed
qed


lemma default_chain:
  "formatters (pattern_formatter_new b default_pattern pt) =
     [aggregate_formatter ''['', Y_formatter, aggregate_formatter ''-'', m_formatter,
      aggregate_formatter ''-'', d_formatter, aggregate_formatter '' '', H_formatter,
      aggregate_formatter '':'', M_formatter, aggregate_formatter '':'', S_formatter,
      aggregate_formatter ''.'', e_formatter, aggregate_formatter ''] ['', name_formatter 0,
      aggregate_formatter ''] ['', level_formatter 0, aggregate_formatter ''] '', v_formatter]"
  by (simp add: eval_compile default_pattern_def)

lemma default_chain_output:
  "snd (format_all b os (formatters (pattern_formatter_new b default_pattern pt)) msg t) =
     put (''['' @ format_int (tm_year t + 1900) @ ''-'' @ fmt_pad (tm_mon t + 1) 2 @ ''-''
        @ fmt_pad (tm_mday t) 2 @ '' '' @ fmt_pad (tm_hour t) 2 @ '':'' @ fmt_pad (tm_min t) 2
        @ '':'' @ fmt_pad (tm_sec t) 2 @ ''.''
        @ fmt_pad (static_cast_int (duration_cast (log_clock_den b) 1000 (time msg) smod 1000)) 3
        @ ''] ['' @ logger_name msg @ ''] ['' @ to_str os (level msg) @ ''] '' @ raw msg) msg"
  by (simp only: default_chain) (simp add: put_def pad_space_left_def Let_def)

lemma full_formatter_output:
  "\<not> SPDLOG_NO_DATETIME b \<Longrightarrow> \<not> SPDLOG_NO_NAME b \<Longrightarrow>
   snd (format b os full_formatter msg t) =
     put (''['' @ format_int (static_cast_unsigned (tm_year t + 1900)) @ ''-''
        @ fmt_pad (static_cast_unsigned (tm_mon t + 1)) 2 @ ''-''
        @ fmt_pad (static_cast_unsigned (tm_mday t)) 2 @ '' ''
        @ fmt_pad (static_cast_unsigned (tm_hour t)) 2 @ '':''
        @ fmt_pad (static_cast_unsigned (tm_min t)) 2 @ '':''
        @ fmt_pad (static_cast_unsigned (tm_sec t)) 2 @ ''.''
        @ fmt_pad (static_cast_unsigned (duration_cast (log_clock_den b) 1000 (time msg) smod 1000)) 3
        @ ''] ['' @ logger_name msg @ ''] ['' @ to_str os (level msg) @ ''] '' @ raw msg) msg"
  by (simp add: full_format_def put_def Let_def)

text \<open>
  C5, as amended. In a build that defines neither \<open>SPDLOG_NO_DATETIME\<close> nor
  \<open>SPDLOG_NO_NAME\<close>, for every record whose timestamp is not before the epoch and every
  calendar breakdown whose printed fields are not negative, the full-line directive \<open>%+\<close>
  appends the concatenation the specification gives, with \<open>pad2\<close> fields and \<open>pad3\<close>
  milliseconds, and that is byte for byte what the chain compiled from the default
  pattern appends.
\<close>

theorem full_line_default_pattern:
  "\<not> SPDLOG_NO_DATETIME b \<and> \<not> SPDLOG_NO_NAME b \<and> 0 < log_clock_den b \<and> 0 \<le> time msg \<and>
   calendar_fields_nonneg t \<longrightarrow>
     formatters (pattern_formatter_new b ''%+'' pt) = [full_formatter] \<and>
     formatted (snd (format b os full_formatter msg t)) = formatted msg @ full_line_spec b os msg t \<and>
     snd (format_all b os (formatters (pattern_formatter_new b default_pattern pt)) msg t) =
       snd (format b os full_formatter msg t)"
proof
  assume h: "\<not> SPDLOG_NO_DATETIME b \<and> \<not> SPDLOG_NO_NAME b \<and> 0 < log_clock_den b \<and>
    0 \<le> time msg \<and> calendar_fields_nonneg t"
  then have den: "0 < log_clock_den b" and tp: "0 \<le> time msg"
    and nd: "\<not> SPDLOG_NO_DATETIME b" and nn: "\<not> SPDLOG_NO_NAME b" by simp_all
  let ?ms = "time_fraction (log_clock_den b) 1000 (time msg)"
  have ms: "duration_cast (log_clock_den b) 1000 (time msg) smod 1000 = ?ms"
    by (rule smod_is_time_fraction [OF den]) simp
  have ms_range: "0 \<le> ?ms" "?ms < 1000"
    using time_fraction_range [OF den _ tp, of 1000] by simp_all
  have ms_cast: "static_cast_unsigned ?ms = ?ms" "static_cast_int ?ms = ?ms"
    using ms_range by (simp_all add: static_cast_unsigned_id static_cast_int_id)
  have f: "0 \<le> tm_year t + 1900" "0 \<le> tm_mon t + 1" "0 \<le> tm_mday t" "0 \<le> tm_hour t"
    "0 \<le> tm_min t" "0 \<le> tm_sec t"
    "tm_year t + 1900 < 2 ^ 32" "tm_mon t + 1 < 2 ^ 32" "tm_mday t < 2 ^ 32"
    "tm_hour t < 2 ^ 32" "tm_min t < 2 ^ 32" "tm_sec t < 2 ^ 32"
    using h by (simp_all add: calendar_fields_nonneg_def)
  have u: "static_cast_unsigned (tm_year t + 1900) = tm_year t + 1900"
    "static_cast_unsigned (tm_mon t + 1) = tm_mon t + 1"
    "static_cast_unsigned (tm_mday t) = tm_mday t"
    "static_cast_unsigned (tm_hour t) = tm_hour t"
    "static_cast_unsigned (tm_min t) = tm_min t"
    "static_cast_unsigned (tm_sec t) = tm_sec t"
    using f by (simp_all only: static_cast_unsigned_id)
  have full: "snd (format b os full_formatter msg t) =
     put (''['' @ format_int (tm_year t + 1900) @ ''-'' @ fmt_pad (tm_mon t + 1) 2 @ ''-''
        @ fmt_pad (tm_mday t) 2 @ '' '' @ fmt_pad (tm_hour t) 2 @ '':'' @ fmt_pad (tm_min t) 2
        @ '':'' @ fmt_pad (tm_sec t) 2 @ ''.'' @ fmt_pad ?ms 3
        @ ''] ['' @ logger_name msg @ ''] ['' @ to_str os (level msg) @ ''] '' @ raw msg) msg"
    by (simp only: full_formatter_output [OF nd nn] u ms ms_cast)
  have chain: "snd (format_all b os (formatters (pattern_formatter_new b default_pattern pt)) msg t) =
      snd (format b os full_formatter msg t)"
    by (simp only: full default_chain_output ms ms_cast)
  have p: "fmt_pad (tm_mon t + 1) 2 = pad2 (tm_mon t + 1) []"
    "fmt_pad (tm_mday t) 2 = pad2 (tm_mday t) []" "fmt_pad (tm_hour t) 2 = pad2 (tm_hour t) []"
    "fmt_pad (tm_min t) 2 = pad2 (tm_min t) []" "fmt_pad (tm_sec t) 2 = pad2 (tm_sec t) []"
    "fmt_pad ?ms 3 = pad3 ?ms []"
    using f ms_range by (simp_all only: fmt_pad_2 fmt_pad_3)
  have spec: "formatted (snd (format b os full_formatter msg t)) =
      formatted msg @ full_line_spec b os msg t"
    by (simp only: full p) (simp add: put_def full_line_spec_def)
  have plus: "formatters (pattern_formatter_new b ''%+'' pt) = [full_formatter]"
    by (simp add: eval_compile)
  show "formatters (pattern_formatter_new b ''%+'' pt) = [full_formatter] \<and>
     formatted (snd (format b os full_formatter msg t)) = formatted msg @ full_line_spec b os msg t \<and>
     snd (format_all b os (formatters (pattern_formatter_new b default_pattern pt)) msg t) =
       snd (format b os full_formatter msg t)"
    using plus spec chain by simp
qed


lemma example_msg_fields:
  "logger_name (example_msg tp) = ''worker''" "level (example_msg tp) = 2"
  "time (example_msg tp) = tp" "raw (example_msg tp) = ''hello''"
  "formatted (example_msg tp) = []"
  by (simp_all add: example_msg_def)

lemma example_level: "to_str example_os 2 = ''info''"
  by (simp add: example_os_def array_at_def)

theorem full_line_default_pattern_witness:
  "\<not> SPDLOG_NO_DATETIME win_build \<and> \<not> SPDLOG_NO_NAME win_build \<and> 0 < log_clock_den win_build \<and>
   0 \<le> time (example_msg 1234567) \<and>
   calendar_fields_nonneg (epoch_tm\<lparr>tm_mday := 25, tm_mon := 11, tm_year := 124\<rparr>) \<and>
   formatted (snd (format win_build example_os full_formatter (example_msg 1234567)
     (epoch_tm\<lparr>tm_mday := 25, tm_mon := 11, tm_year := 124\<rparr>))) =
     ''[2024-12-25 00:00:00.567] [worker] [info] hello'' \<and>
   formatted (snd (format_all win_build example_os
     (formatters (pattern_formatter_new win_build default_pattern local)) (example_msg 1234567)
     (epoch_tm\<lparr>tm_mday := 25, tm_mon := 11, tm_year := 124\<rparr>))) =
     ''[2024-12-25 00:00:00.567] [worker] [info] hello''"
proof -
  let ?t = "epoch_tm\<lparr>tm_mday := 25, tm_mon := 11, tm_year := 124\<rparr>"
  let ?m = "example_msg 1234567"
  have h: "\<not> SPDLOG_NO_DATETIME win_build \<and> \<not> SPDLOG_NO_NAME win_build \<and>
      0 < log_clock_den win_build \<and> 0 \<le> time ?m \<and> calendar_fields_nonneg ?t"
    by (simp add: win_build_def example_msg_fields calendar_fields_nonneg_def epoch_tm_def)
  have line: "full_line_spec win_build example_os ?m ?t =
      ''[2024-12-25 00:00:00.567] [worker] [info] hello''"
    by (simp add: full_line_spec_def example_msg_fields example_level win_build_def
        example_fractions epoch_tm_def eval_text)
  have a: "formatted (snd (format win_build example_os full_formatter ?m ?t)) =
      formatted ?m @ full_line_spec win_build example_os ?m ?t"
    and b: "snd (format_all win_build example_os
        (formatters (pattern_formatter_new win_build default_pattern local)) ?m ?t) =
      snd (format win_build example_os full_formatter ?m ?t)"
    using full_line_default_pattern [where b = win_build and msg = ?m and t = ?t
        and os = example_os and pt = local] h
    by blast+
  show ?thesis
    using h by (simp only: b a line example_msg_fields append_Nil simp_thms)
qed

text \<open>
  C5 as stated fails for a record stamped half a second before the epoch, with the valid
  calendar breakdown of the epoch: the full-line directive converts the remainder
  \<open>-500\<close> to \<open>unsigned int\<close>, the \<open>%e\<close> directive of the default pattern to \<open>int\<close>.
\<close>

theorem full_line_before_epoch_counterexample:
  "calendar_fields_nonneg epoch_tm \<and>
   formatted (snd (format win_build example_os full_formatter (example_msg (- 500)) epoch_tm)) =
     ''[1970-01-01 00:00:00.4294966796] [worker] [info] hello'' \<and>
   formatted (snd (format_all win_build example_os
     (formatters (pattern_formatter_new win_build default_pattern local)) (example_msg (- 500))
     epoch_tm)) =
     ''[1970-01-01 00:00:00.-500] [worker] [info] hello''"
proof -
  have nd: "\<not> SPDLOG_NO_DATETIME win_build" "\<not> SPDLOG_NO_NAME win_build"
    by (simp_all add: win_build_def)
  have d: "duration_cast (log_clock_den win_build) 1000 (time (example_msg (- 500))) smod 1000 = - 500"
    by (simp add: win_build_def example_msg_fields duration_cast_def signed_divide_int_def
        signed_modulo_int_def)
  have s: "static_cast_int (- 500) = - 500"
    by (rule static_cast_int_range) simp_all
  have u: "static_cast_unsigned (- 500) = 4294966796"
    by (simp add: static_cast_unsigned_def)
  have c: "calendar_fields_nonneg epoch_tm"
    by (simp add: calendar_fields_nonneg_def epoch_tm_def)
  have full: "formatted (snd (format win_build example_os full_formatter (example_msg (- 500))
      epoch_tm)) = ''[1970-01-01 00:00:00.4294966796] [worker] [info] hello''"
    by (simp only: full_formatter_output [OF nd] d u)
      (simp add: put_def example_msg_fields example_level epoch_tm_def static_cast_unsigned_def
        eval_text)
  have chain: "formatted (snd (format_all win_build example_os
      (formatters (pattern_formatter_new win_build default_pattern local)) (example_msg (- 500))
      epoch_tm)) = ''[1970-01-01 00:00:00.-500] [worker] [info] hello''"
    by (simp only: default_chain_output d s)
      (simp add: put_def example_msg_fields example_level epoch_tm_def eval_text)
  show ?thesis using c full chain by simp
qed

end
